theory Spec2Isabelle
  imports Main
begin

section \<open>Solidity values, failure and checked arithmetic\<close>

text \<open>
  The contracts are compiled with Solidity 0.8: \<open>uint256\<close> arithmetic is checked and an
  overflow or underflow aborts the call. Unsigned integers are modelled as \<open>nat\<close> and
  \<open>int128\<close> as \<open>int\<close>, with every range check written out. A call either fails with an
  \<open>error\<close> (\<open>Inl\<close>) or returns its result (\<open>Inr\<close>); a failed call leaves the state as it
  was, so a failing operation returns no state.
\<close>

type_synonym address = nat

datatype error =
    Revert string
  | Panic
  | MathError
  | ExternalCallFailed

definition MAX_UINT256 :: nat where
  "MAX_UINT256 = 2 ^ 256 - 1"

definition MAX_64x64 :: int where
  "MAX_64x64 = 2 ^ 127 - 1"

definition MIN_64x64 :: int where
  "MIN_64x64 = - (2 ^ 127)"

definition ONE_64x64 :: int where
  "ONE_64x64 = 2 ^ 64"

definition add256 :: "nat \<Rightarrow> nat \<Rightarrow> error + nat" where
  "add256 a b = (if a + b \<le> MAX_UINT256 then Inr (a + b) else Inl Panic)"

definition sub256 :: "nat \<Rightarrow> nat \<Rightarrow> error + nat" where
  "sub256 a b = (if b \<le> a then Inr (a - b) else Inl Panic)"

definition bind :: "error + 'a \<Rightarrow> ('a \<Rightarrow> error + 'b) \<Rightarrow> error + 'b" where
  "bind m f = (case m of Inl e \<Rightarrow> Inl e | Inr x \<Rightarrow> f x)"

definition require :: "bool \<Rightarrow> string \<Rightarrow> error + unit" where
  "require c msg = (if c then Inr () else Inl (Revert msg))"

subsection \<open>Signed 64.64 fixed point\<close>

text \<open>
  Modelled from the spec: the 64.64 library (ABDKMath64x64) is not among the sources. A
  64.64 number is the \<open>int128\<close> \<open>x\<close> standing for \<open>x / 2^64\<close>. \<open>mulu\<close> multiplies a
  non-negative 64.64 number by a \<open>uint256\<close> and rounds down; \<open>divu\<close> divides two
  \<open>uint256\<close> into a 64.64 number, rounding down; \<open>sub64\<close>, \<open>mul64\<close> and \<open>div64\<close> are the
  signed operations. Each fails when its result leaves the range of its type.
\<close>

definition mulu :: "int \<Rightarrow> nat \<Rightarrow> error + nat" where
  "mulu x y =
     (if y = 0 then Inr 0
      else if x < 0 then Inl MathError
      else if nat ((x * int y) div 2 ^ 64) \<le> MAX_UINT256
        then Inr (nat ((x * int y) div 2 ^ 64))
      else Inl MathError)"

definition divu :: "nat \<Rightarrow> nat \<Rightarrow> error + int" where
  "divu x y =
     (if y = 0 then Inl MathError
      else if int ((x * 2 ^ 64) div y) \<le> MAX_64x64 then Inr (int ((x * 2 ^ 64) div y))
      else Inl MathError)"

definition in_int128 :: "int \<Rightarrow> bool" where
  "in_int128 r = (MIN_64x64 \<le> r \<and> r \<le> MAX_64x64)"

definition sub64 :: "int \<Rightarrow> int \<Rightarrow> error + int" where
  "sub64 x y = (if in_int128 (x - y) then Inr (x - y) else Inl MathError)"

definition mul64 :: "int \<Rightarrow> int \<Rightarrow> error + int" where
  "mul64 x y = (if in_int128 ((x * y) div 2 ^ 64) then Inr ((x * y) div 2 ^ 64) else Inl MathError)"

definition tdiv :: "int \<Rightarrow> int \<Rightarrow> int" where
  "tdiv a b = sgn a * sgn b * (\<bar>a\<bar> div \<bar>b\<bar>)"

definition div64 :: "int \<Rightarrow> int \<Rightarrow> error + int" where
  "div64 x y =
     (if y = 0 then Inl MathError
      else if in_int128 (tdiv (x * 2 ^ 64) y) then Inr (tdiv (x * 2 ^ 64) y)
      else Inl MathError)"

subsection \<open>Option arithmetic\<close>

text \<open>
  Modelled from the spec: OptionMath.sol is not among the sources. \<open>toBaseTokenAmount\<close>
  rescales a value from the underlying's decimals to the base's. \<open>fromContractsToCollateral\<close>
  is the five-argument conversion: a call is collateralised one to one, a put by
  \<open>size \<times> strike\<close> rescaled to the base decimals.
\<close>

definition toBaseTokenAmount :: "nat \<Rightarrow> nat \<Rightarrow> nat \<Rightarrow> error + nat" where
  "toBaseTokenAmount underlyingDecimals baseDecimals v =
     bind (divu v (10 ^ underlyingDecimals)) (\<lambda>value64x64.
     mulu value64x64 (10 ^ baseDecimals))"

definition fromContractsToCollateral :: "nat \<Rightarrow> bool \<Rightarrow> nat \<Rightarrow> nat \<Rightarrow> int \<Rightarrow> error + nat" where
  "fromContractsToCollateral contracts isCall underlyingDecimals baseDecimals strike64x64 =
     (if isCall then Inr contracts
      else bind (mulu strike64x64 contracts) (\<lambda>v.
           toBaseTokenAmount underlyingDecimals baseDecimals v))"

text \<open>
  Modelled from the spec: the four-argument overload
  \<open>OptionMath.fromContractsToCollateral(collateral, isCall, baseDecimals, strike64x64)\<close>,
  which the contracts call on a collateral amount and which TestOptionMath exposes under
  the name \<open>fromCollateralToContracts\<close>. It is the inverse conversion: a call's collateral
  is its number of contracts, a put's collateral is divided by the strike. The library's
  tests pin it: 100000 units of base collateral at strike 2000 are 50 contracts.
\<close>

definition fromCollateralToContracts :: "nat \<Rightarrow> bool \<Rightarrow> nat \<Rightarrow> int \<Rightarrow> error + nat" where
  "fromCollateralToContracts collateral isCall baseDecimals strike64x64 =
     (if isCall then Inr collateral
      else bind (divu collateral (10 ^ baseDecimals)) (\<lambda>collateral64x64.
           bind (div64 collateral64x64 strike64x64) (\<lambda>q.
           mulu q (10 ^ baseDecimals))))"

section \<open>The order book\<close>

text \<open>
  Modelled from the spec: OrderBook.sol is not among the sources. The book is a
  doubly-linked index of orders keyed by an id issued from a counter, starting at 1; 0 is
  the null id. Its state is the sequence of live orders from head to tail and the last id
  issued. \<open>insert'\<close> places a new order after the last order whose price is at least the
  new price; \<open>remove\<close> unlinks an order; an absent id reads as the zero order.
\<close>

record Data =
  id' :: nat
  price64x64 :: int
  size' :: nat
  buyer :: address

record Index =
  nodes :: "Data list"
  lastId :: nat

definition zeroData :: Data where
  "zeroData = \<lparr>id' = 0, price64x64 = 0, size' = 0, buyer = 0\<rparr>"

definition head :: "Index \<Rightarrow> nat" where
  "head index = (case nodes index of [] \<Rightarrow> 0 | d # ds \<Rightarrow> id' d)"

definition length' :: "Index \<Rightarrow> nat" where
  "length' index = length (nodes index)"

definition getOrderById :: "Index \<Rightarrow> nat \<Rightarrow> Data" where
  "getOrderById index i =
     (case find (\<lambda>d. id' d = i) (nodes index) of None \<Rightarrow> zeroData | Some d \<Rightarrow> d)"

fun nextOf :: "nat \<Rightarrow> Data list \<Rightarrow> nat" where
  "nextOf i [] = 0"
| "nextOf i [d] = 0"
| "nextOf i (d # e # ds) = (if id' d = i then id' e else nextOf i (e # ds))"

definition getNextOrder :: "Index \<Rightarrow> nat \<Rightarrow> nat" where
  "getNextOrder index i = nextOf i (nodes index)"

fun place :: "Data \<Rightarrow> Data list \<Rightarrow> Data list" where
  "place d [] = [d]"
| "place d (x # xs) =
     (if price64x64 x < price64x64 d then d # x # xs else x # place d xs)"

definition insert' :: "Index \<Rightarrow> int \<Rightarrow> nat \<Rightarrow> address \<Rightarrow> Index \<times> nat" where
  "insert' index price sz b =
     (let i = lastId index + 1;
          d = \<lparr>id' = i, price64x64 = price, size' = sz, buyer = b\<rparr>
      in (index\<lparr>nodes := place d (nodes index), lastId := i\<rparr>, i))"

definition remove :: "Index \<Rightarrow> nat \<Rightarrow> Index \<times> bool" where
  "remove index i =
     (if i \<in> set (map id' (nodes index))
      then (index\<lparr>nodes := filter (\<lambda>d. id' d \<noteq> i) (nodes index)\<rparr>, True)
      else (index, False))"

section \<open>The auction (AuctionStorage, AuctionInternal, Auction)\<close>

datatype Status = UNINITIALIZED | INITIALIZED | FINALIZED | PROCESSED | CANCELLED

record InitAuction =
  ia_epoch :: nat
  ia_expiry :: nat
  ia_strike64x64 :: int
  ia_longTokenId :: nat
  ia_startTime :: nat
  ia_endTime :: nat

record Auction =
  status :: Status
  expiry :: nat
  strike64x64 :: int
  maxPrice64x64 :: int
  minPrice64x64 :: int
  lastPrice64x64 :: int
  startTime :: nat
  endTime :: nat
  processedTime :: nat
  totalContracts :: nat
  totalContractsSold :: nat
  totalPremiums :: nat
  longTokenId :: nat

text \<open>
  \<open>epochsByBuyer\<close> is an EnumerableSet.UintSet per buyer, modelled as the set of its
  members: \<open>add\<close> is \<open>insert\<close>, \<open>remove\<close> is set difference.
\<close>

record Layout =
  minSize :: nat
  auctions :: "nat \<Rightarrow> Auction"
  orderbooks :: "nat \<Rightarrow> Index"
  epochsByBuyer :: "address \<Rightarrow> nat set"

text \<open>
  The immutables of AuctionInternal, and what a call sees of the outside world:
  \<open>msg.sender\<close>, \<open>block.timestamp\<close>, the answers of the external views
  \<open>Vault.totalCollateral()\<close>, \<open>Pool.balanceOf(this, longTokenId)\<close> and
  \<open>Pool.getPriceAfter64x64(expiry)\<close>, and whether the token transfers and pool calls the
  call makes succeed (a failing one aborts the call). For a call of the vault it also
  holds the vault's collateral balance \<open>ERC20.balanceOf(this)\<close>, its short-token balance
  \<open>Pool.balanceOf(this, shortTokenId)\<close> and the strike the pricer answers
  (\<open>snapToGrid64x64\<close> of \<open>getDeltaStrikePrice64x64\<close>).
\<close>

record Immutables =
  isCall :: bool
  baseDecimals :: nat
  underlyingDecimals :: nat
  Vault :: address

record Env =
  msg_sender :: address
  block_timestamp :: nat
  vault_totalCollateral :: nat
  long_balance :: nat
  priceAfter64x64 :: int
  erc20_balance :: nat
  short_balance :: nat
  pricer_strike64x64 :: int
  transfers_succeed :: bool

definition zeroAuction :: Auction where
  "zeroAuction =
     \<lparr>status = UNINITIALIZED, expiry = 0, strike64x64 = 0, maxPrice64x64 = 0,
      minPrice64x64 = 0, lastPrice64x64 = 0, startTime = 0, endTime = 0, processedTime = 0,
      totalContracts = 0, totalContractsSold = 0, totalPremiums = 0, longTokenId = 0\<rparr>"

definition emptyLayout :: "nat \<Rightarrow> Layout" where
  "emptyLayout m =
     \<lparr>minSize = m, auctions = (\<lambda>_. zeroAuction),
      orderbooks = (\<lambda>_. \<lparr>nodes = [], lastId = 0\<rparr>), epochsByBuyer = (\<lambda>_. {})\<rparr>"

subsection \<open>Access control and timing guards\<close>

definition onlyVault :: "Immutables \<Rightarrow> Env \<Rightarrow> error + unit" where
  "onlyVault im env = require (msg_sender env = Vault im) ''!vault''"

definition auctionHasStarted :: "Auction \<Rightarrow> nat \<Rightarrow> error + unit" where
  "auctionHasStarted auction now =
     bind (require (startTime auction > 0) ''start time is not set'') (\<lambda>_.
     require (now \<ge> startTime auction) ''auction not started'')"

definition auctionHasNotEnded :: "Auction \<Rightarrow> nat \<Rightarrow> error + unit" where
  "auctionHasNotEnded auction now =
     bind (require (endTime auction > 0) ''end time is not set'') (\<lambda>_.
     require (now \<le> endTime auction) ''auction has ended'')"

definition limitOrdersAllowed :: "Auction \<Rightarrow> nat \<Rightarrow> error + unit" where
  "limitOrdersAllowed auction now =
     bind (require (status auction = INITIALIZED) ''status != initialized'') (\<lambda>_.
     auctionHasNotEnded auction now)"

definition marketOrdersAllowed :: "Auction \<Rightarrow> nat \<Rightarrow> error + unit" where
  "marketOrdersAllowed auction now =
     bind (require (status auction = INITIALIZED) ''status != initialized'') (\<lambda>_.
     bind (auctionHasStarted auction now) (\<lambda>_.
     auctionHasNotEnded auction now))"

subsection \<open>Pricing\<close>

definition lastPrice64x64' :: "Auction \<Rightarrow> int" where
  "lastPrice64x64' auction = lastPrice64x64 auction"

definition priceCurve64x64 :: "Auction \<Rightarrow> nat \<Rightarrow> error + int" where
  "priceCurve64x64 auction now =
     bind (sub256 (endTime auction) (startTime auction)) (\<lambda>totalTime.
     if now \<le> startTime auction then Inr (maxPrice64x64 auction)
     else
       bind (sub256 now (startTime auction)) (\<lambda>elapsed.
       bind (divu elapsed totalTime) (\<lambda>timeRemaining64x64.
       bind (sub64 (maxPrice64x64 auction) (minPrice64x64 auction)) (\<lambda>x.
       bind (mul64 timeRemaining64x64 x) (\<lambda>y.
       sub64 (maxPrice64x64 auction) y)))))"

definition clearingPrice64x64 :: "Auction \<Rightarrow> nat \<Rightarrow> error + int" where
  "clearingPrice64x64 auction now =
     (if status auction = FINALIZED \<or> status auction = PROCESSED \<or> status auction = CANCELLED
      then Inr (lastPrice64x64' auction)
      else priceCurve64x64 auction now)"

subsection \<open>Withdrawing: the traversal of \<open>_previewWithdraw\<close>\<close>

text \<open>
  The body of the loop for an order of the buyer: the refund and fill after the order,
  from the refund and fill before it and the sizes summed so far.
\<close>

definition withdrawOrder ::
  "int \<Rightarrow> nat \<Rightarrow> Data \<Rightarrow> nat \<Rightarrow> nat \<Rightarrow> nat \<Rightarrow> error + (nat \<times> nat)" where
  "withdrawOrder lastPrice totalContracts' d refund fill totalContractsSold' =
     (if lastPrice < MAX_64x64 \<and> price64x64 d \<ge> lastPrice then
        bind (mulu (price64x64 d) (size' d)) (\<lambda>paid.
        bind (mulu lastPrice (size' d)) (\<lambda>cost0.
        bind (add256 totalContractsSold' (size' d)) (\<lambda>reached.
        bind (if reached \<ge> totalContracts' then
                bind (sub256 totalContracts' totalContractsSold') (\<lambda>remainder.
                bind (mulu lastPrice remainder) (\<lambda>cost.
                bind (add256 fill remainder) (\<lambda>fill'.
                Inr (cost, fill'))))
              else
                bind (add256 fill (size' d)) (\<lambda>fill'.
                Inr (cost0, fill'))) (\<lambda>(cost, fill').
        bind (sub256 paid cost) (\<lambda>diff.
        bind (add256 refund diff) (\<lambda>refund'.
        Inr (refund', fill')))))))
      else
        bind (mulu (price64x64 d) (size' d)) (\<lambda>paid.
        bind (add256 refund paid) (\<lambda>refund'.
        Inr (refund', fill))))"

definition withdrawStep ::
  "bool \<Rightarrow> address \<Rightarrow> int \<Rightarrow> nat \<Rightarrow> Index \<Rightarrow> nat \<Rightarrow> nat \<Rightarrow> nat \<Rightarrow> nat
    \<Rightarrow> error + (Index \<times> nat \<times> nat \<times> nat \<times> nat)" where
  "withdrawStep isPreview b lastPrice totalContracts' orderbook next refund fill totalContractsSold' =
     (let d = getOrderById orderbook next;
          next' = getNextOrder orderbook next
      in bind (if buyer d = b then
                 bind (withdrawOrder lastPrice totalContracts' d refund fill totalContractsSold')
                   (\<lambda>(refund', fill').
                 Inr (if \<not> isPreview then fst (remove orderbook (id' d)) else orderbook,
                      refund', fill'))
               else Inr (orderbook, refund, fill)) (\<lambda>(orderbook', refund', fill').
         bind (add256 totalContractsSold' (size' d)) (\<lambda>sold'.
         Inr (orderbook', next', refund', fill', sold'))))"

fun withdrawLoop ::
  "nat \<Rightarrow> bool \<Rightarrow> address \<Rightarrow> int \<Rightarrow> nat \<Rightarrow> Index \<Rightarrow> nat \<Rightarrow> nat \<Rightarrow> nat \<Rightarrow> nat
    \<Rightarrow> error + (nat \<times> nat \<times> Index)" where
  "withdrawLoop 0 isPreview b lastPrice tc orderbook next refund fill sold =
     Inr (refund, fill, orderbook)"
| "withdrawLoop (Suc n) isPreview b lastPrice tc orderbook next refund fill sold =
     (case withdrawStep isPreview b lastPrice tc orderbook next refund fill sold of
        Inl e \<Rightarrow> Inl e
      | Inr (orderbook', next', refund', fill', sold') \<Rightarrow>
          withdrawLoop n isPreview b lastPrice tc orderbook' next' refund' fill' sold')"

text \<open>
  \<open>_previewWithdraw(l, isPreview, epoch, buyer)\<close>: the refund, the fill and the order book
  of the epoch after the traversal (unchanged when \<open>isPreview\<close>).
\<close>

definition previewWithdraw ::
  "Layout \<Rightarrow> nat \<Rightarrow> bool \<Rightarrow> nat \<Rightarrow> address \<Rightarrow> error + (nat \<times> nat \<times> Index)" where
  "previewWithdraw l now isPreview epoch b =
     (let auction = auctions l epoch;
          orderbook = orderbooks l epoch
      in bind (clearingPrice64x64 auction now) (\<lambda>lastPrice.
         withdrawLoop (length' orderbook) isPreview b lastPrice (totalContracts auction)
           orderbook (head orderbook) 0 0 0))"

definition getExerciseAmount :: "Immutables \<Rightarrow> Env \<Rightarrow> Layout \<Rightarrow> nat \<Rightarrow> nat \<Rightarrow> error + (bool \<times> nat)" where
  "getExerciseAmount im env l epoch sz =
     (let auction = auctions l epoch;
          spot64x64 = priceAfter64x64 env
      in if block_timestamp env < expiry auction then Inr (False, 0)
         else if isCall im \<and> spot64x64 > strike64x64 auction then
           bind (sub64 spot64x64 (strike64x64 auction)) (\<lambda>x.
           bind (div64 x spot64x64) (\<lambda>y.
           bind (mulu y sz) (\<lambda>amount. Inr (True, amount))))
         else if \<not> isCall im \<and> strike64x64 auction > spot64x64 then
           bind (sub64 (strike64x64 auction) spot64x64) (\<lambda>x.
           bind (mulu x sz) (\<lambda>v.
           bind (toBaseTokenAmount (underlyingDecimals im) (baseDecimals im) v) (\<lambda>amount.
           Inr (True, amount))))
         else Inr (True, 0))"

text \<open>
  \<open>_withdraw\<close> returns the new layout with the refund and the fill it transfers to the
  caller; it transfers only amounts above 0.
\<close>

definition withdraw' :: "Immutables \<Rightarrow> Env \<Rightarrow> Layout \<Rightarrow> nat \<Rightarrow> error + (Layout \<times> nat \<times> nat)" where
  "withdraw' im env l epoch =
     bind (previewWithdraw l (block_timestamp env) False epoch (msg_sender env))
       (\<lambda>(refund, fill, orderbook').
     (let l1 = l\<lparr>orderbooks := (orderbooks l)(epoch := orderbook'),
                 epochsByBuyer := (epochsByBuyer l)
                   (msg_sender env := epochsByBuyer l (msg_sender env) - {epoch})\<rparr>
      in bind (getExerciseAmount im env l1 epoch fill) (\<lambda>(expired, exercisedAmount).
         bind (if expired then
                 bind (if exercisedAmount > 0 then add256 refund exercisedAmount else Inr refund)
                   (\<lambda>refund'. Inr (refund', 0))
               else Inr (refund, fill)) (\<lambda>(refund', fill').
         if (fill' > 0 \<or> refund' > 0) \<and> \<not> transfers_succeed env
         then Inl ExternalCallFailed
         else Inr (l1, refund', fill')))))"

definition withdraw :: "Immutables \<Rightarrow> Env \<Rightarrow> Layout \<Rightarrow> nat \<Rightarrow> error + (Layout \<times> nat \<times> nat)" where
  "withdraw im env l epoch =
     (let auction = auctions l epoch in
      bind (require (status auction = PROCESSED \<or> status auction = CANCELLED)
              ''status != processed || cancelled'') (\<lambda>_.
      bind (if status auction = PROCESSED then
              bind (add256 (processedTime auction) 86400) (\<lambda>t.
              require (block_timestamp env \<ge> t) ''hold period has not ended'')
            else Inr ()) (\<lambda>_.
      withdraw' im env l epoch)))"

subsection \<open>Finalizing: \<open>_processOrders\<close> and \<open>_finalizeAuction\<close>\<close>

definition getTotalContracts :: "Immutables \<Rightarrow> Env \<Rightarrow> Auction \<Rightarrow> error + nat" where
  "getTotalContracts im env auction =
     (if totalContracts auction \<le> 0 then
        fromCollateralToContracts (vault_totalCollateral env) (isCall im) (baseDecimals im)
          (strike64x64 auction)
      else Inr (totalContracts auction))"

text \<open>
  The loop of \<open>_processOrders\<close>: the result is whether the book filled the auction, the
  last price and the contracts sold. \<open>auction\<close> is the auction as the loop reads it (its
  \<open>totalContracts\<close> already set).
\<close>

fun processLoop ::
  "nat \<Rightarrow> Auction \<Rightarrow> nat \<Rightarrow> Index \<Rightarrow> nat \<Rightarrow> nat \<Rightarrow> nat \<Rightarrow> int \<Rightarrow> error + (bool \<times> int \<times> nat)" where
  "processLoop 0 auction now orderbook tc next sold lastPrice = Inr (False, lastPrice, sold)"
| "processLoop (Suc n) auction now orderbook tc next sold lastPrice =
     (let d = getOrderById orderbook next;
          next' = getNextOrder orderbook next
      in case clearingPrice64x64 auction now of
           Inl e \<Rightarrow> Inl e
         | Inr clearing \<Rightarrow>
             if price64x64 d < clearing then Inr (False, lastPrice, sold)
             else (case add256 sold (size' d) of
                     Inl e \<Rightarrow> Inl e
                   | Inr reached \<Rightarrow>
                       if reached \<ge> tc then Inr (True, price64x64 d, tc)
                       else processLoop n auction now orderbook tc next' reached (price64x64 d)))"

definition processOrders :: "Immutables \<Rightarrow> Env \<Rightarrow> Layout \<Rightarrow> nat \<Rightarrow> error + (Layout \<times> bool)" where
  "processOrders im env l epoch =
     (let orderbook = orderbooks l epoch;
          auction = auctions l epoch
      in bind (getTotalContracts im env auction) (\<lambda>tc.
         (let auction1 = (if totalContracts auction \<le> 0 then auction\<lparr>totalContracts := tc\<rparr>
                          else auction)
          in bind (processLoop (length' orderbook) auction1 (block_timestamp env) orderbook tc
                     (head orderbook) 0 0) (\<lambda>(filled, lastPrice, sold).
             Inr (l\<lparr>auctions := (auctions l)
                      (epoch := auction1\<lparr>lastPrice64x64 := lastPrice,
                                         totalContractsSold := sold\<rparr>)\<rparr>, filled)))))"

definition finalizeAuction' :: "Immutables \<Rightarrow> Env \<Rightarrow> Layout \<Rightarrow> nat \<Rightarrow> error + Layout" where
  "finalizeAuction' im env l epoch =
     bind (processOrders im env l epoch) (\<lambda>(l1, filled).
     if filled \<or> block_timestamp env > endTime (auctions l1 epoch)
     then Inr (l1\<lparr>auctions := (auctions l1)
                    (epoch := (auctions l1 epoch)\<lparr>status := FINALIZED\<rparr>)\<rparr>)
     else Inr l1)"

subsection \<open>Purchase\<close>

definition validateLimitOrder :: "Layout \<Rightarrow> int \<Rightarrow> nat \<Rightarrow> error + nat" where
  "validateLimitOrder l price sz =
     bind (require (price > 0) ''price <= 0'') (\<lambda>_.
     bind (require (sz \<ge> minSize l) ''size < minimum'') (\<lambda>_.
     mulu price sz))"

definition validateMarketOrder :: "Layout \<Rightarrow> Auction \<Rightarrow> nat \<Rightarrow> nat \<Rightarrow> nat \<Rightarrow> error + (int \<times> nat)" where
  "validateMarketOrder l auction now sz maxCost =
     bind (require (sz \<ge> minSize l) ''size < minimum'') (\<lambda>_.
     bind (priceCurve64x64 auction now) (\<lambda>price.
     bind (mulu price sz) (\<lambda>cost.
     bind (require (maxCost \<ge> cost) ''cost > maxCost'') (\<lambda>_.
     Inr (price, cost)))))"

definition addOrder :: "Immutables \<Rightarrow> Env \<Rightarrow> Layout \<Rightarrow> nat \<Rightarrow> int \<Rightarrow> nat \<Rightarrow> error + Layout" where
  "addOrder im env l epoch price sz =
     (let l1 = l\<lparr>epochsByBuyer := (epochsByBuyer l)
                   (msg_sender env := insert epoch (epochsByBuyer l (msg_sender env)))\<rparr>;
          l2 = l1\<lparr>orderbooks := (orderbooks l1)
                   (epoch := fst (insert' (orderbooks l1 epoch) price sz (msg_sender env)))\<rparr>
      in if block_timestamp env \<ge> startTime (auctions l epoch)
         then finalizeAuction' im env l2 epoch
         else Inr l2)"

text \<open>
  The payment of an order (wrapped native token, a transfer from the buyer, or a swap) is
  an external effect: the order is added when it succeeds and the call fails otherwise.
  \<open>swapAndAddLimitOrder\<close> and \<open>swapAndAddMarketOrder\<close> differ from the two functions below
  only in how the payment is collected.
\<close>

definition addLimitOrder :: "Immutables \<Rightarrow> Env \<Rightarrow> Layout \<Rightarrow> nat \<Rightarrow> int \<Rightarrow> nat \<Rightarrow> error + Layout" where
  "addLimitOrder im env l epoch price sz =
     bind (limitOrdersAllowed (auctions l epoch) (block_timestamp env)) (\<lambda>_.
     bind (validateLimitOrder l price sz) (\<lambda>cost.
     if transfers_succeed env then addOrder im env l epoch price sz
     else Inl ExternalCallFailed))"

definition addMarketOrder :: "Immutables \<Rightarrow> Env \<Rightarrow> Layout \<Rightarrow> nat \<Rightarrow> nat \<Rightarrow> nat \<Rightarrow> error + Layout" where
  "addMarketOrder im env l epoch sz maxCost =
     bind (marketOrdersAllowed (auctions l epoch) (block_timestamp env)) (\<lambda>_.
     bind (validateMarketOrder l (auctions l epoch) (block_timestamp env) sz maxCost)
       (\<lambda>(price, cost).
     if transfers_succeed env then addOrder im env l epoch price sz
     else Inl ExternalCallFailed))"

definition cancelLimitOrder :: "Immutables \<Rightarrow> Env \<Rightarrow> Layout \<Rightarrow> nat \<Rightarrow> nat \<Rightarrow> error + Layout" where
  "cancelLimitOrder im env l epoch i =
     bind (limitOrdersAllowed (auctions l epoch) (block_timestamp env)) (\<lambda>_.
     bind (require (i > 0) ''invalid order id'') (\<lambda>_.
     (let orderbook = orderbooks l epoch;
          d = getOrderById orderbook i
      in bind (require (buyer d \<noteq> 0) ''order does not exist'') (\<lambda>_.
         bind (require (buyer d = msg_sender env) ''buyer != msg.sender'') (\<lambda>_.
         (let l1 = l\<lparr>orderbooks := (orderbooks l)(epoch := fst (remove orderbook i))\<rparr>;
              l2 = l1\<lparr>epochsByBuyer := (epochsByBuyer l1)
                       (buyer d := epochsByBuyer l1 (buyer d) - {epoch})\<rparr>
          in bind (if block_timestamp env \<ge> startTime (auctions l epoch)
                   then finalizeAuction' im env l2 epoch else Inr l2) (\<lambda>l3.
             bind (mulu (price64x64 d) (size' d)) (\<lambda>cost.
             if transfers_succeed env then Inr l3 else Inl ExternalCallFailed))))))))"

subsection \<open>Lifecycle entry points of the vault and of anyone\<close>

definition cancel :: "Auction \<Rightarrow> Auction" where
  "cancel auction =
     auction\<lparr>lastPrice64x64 := MAX_64x64, status := CANCELLED, totalPremiums := 0\<rparr>"

definition initialize :: "Immutables \<Rightarrow> Env \<Rightarrow> Layout \<Rightarrow> InitAuction \<Rightarrow> error + Layout" where
  "initialize im env l initAuction =
     bind (onlyVault im env) (\<lambda>_.
     (let auction = auctions l (ia_epoch initAuction) in
      bind (require (status auction = UNINITIALIZED) ''status != uninitialized'') (\<lambda>_.
      if ia_startTime initAuction \<ge> ia_endTime initAuction \<or>
         block_timestamp env > ia_startTime initAuction \<or>
         block_timestamp env > ia_expiry initAuction \<or>
         ia_strike64x64 initAuction \<le> 0 \<or>
         ia_longTokenId initAuction \<le> 0
      then Inr (l\<lparr>auctions := (auctions l)(ia_epoch initAuction := cancel auction)\<rparr>)
      else Inr (l\<lparr>auctions := (auctions l)(ia_epoch initAuction :=
                   auction\<lparr>status := INITIALIZED,
                           expiry := ia_expiry initAuction,
                           strike64x64 := ia_strike64x64 initAuction,
                           startTime := ia_startTime initAuction,
                           endTime := ia_endTime initAuction,
                           longTokenId := ia_longTokenId initAuction\<rparr>)\<rparr>))))"

definition setAuctionPrices :: "Immutables \<Rightarrow> Env \<Rightarrow> Layout \<Rightarrow> nat \<Rightarrow> int \<Rightarrow> int \<Rightarrow> error + Layout" where
  "setAuctionPrices im env l epoch maxPrice minPrice =
     bind (onlyVault im env) (\<lambda>_.
     (let auction = auctions l epoch in
      bind (require (status auction = INITIALIZED) ''status != initialized'') (\<lambda>_.
      (let auction1 = auction\<lparr>maxPrice64x64 := maxPrice, minPrice64x64 := minPrice\<rparr>
       in if maxPrice64x64 auction1 \<le> 0 \<or> minPrice64x64 auction1 \<le> 0 \<or>
             maxPrice64x64 auction1 \<le> minPrice64x64 auction1
          then Inr (l\<lparr>auctions := (auctions l)(epoch := cancel auction1)\<rparr>)
          else Inr (l\<lparr>auctions := (auctions l)(epoch := auction1)\<rparr>)))))"

definition finalizeAuction :: "Immutables \<Rightarrow> Env \<Rightarrow> Layout \<Rightarrow> nat \<Rightarrow> error + Layout" where
  "finalizeAuction im env l epoch =
     (let auction = auctions l epoch in
      bind (add256 (endTime auction) 86400) (\<lambda>deadline.
      if block_timestamp env \<ge> deadline \<and>
         (status auction = INITIALIZED \<or> status auction = FINALIZED)
      then Inr (l\<lparr>auctions := (auctions l)(epoch := cancel auction)\<rparr>)
      else if block_timestamp env > startTime auction \<and> status auction = INITIALIZED
      then finalizeAuction' im env l epoch
      else Inr l))"

text \<open>\<open>transferPremium\<close> returns the new layout and the amount it transfers to the vault.\<close>

definition transferPremium :: "Immutables \<Rightarrow> Env \<Rightarrow> Layout \<Rightarrow> nat \<Rightarrow> error + (Layout \<times> nat)" where
  "transferPremium im env l epoch =
     bind (onlyVault im env) (\<lambda>_.
     (let auction = auctions l epoch in
      bind (require (status auction = FINALIZED) ''status != finalized'') (\<lambda>_.
      bind (require (totalPremiums auction \<le> 0) ''premiums transferred'') (\<lambda>_.
      bind (mulu (lastPrice64x64' auction) (totalContractsSold auction)) (\<lambda>totalPremiums'.
      if transfers_succeed env
      then Inr (l\<lparr>auctions := (auctions l)
                    (epoch := auction\<lparr>totalPremiums := totalPremiums'\<rparr>)\<rparr>, totalPremiums')
      else Inl ExternalCallFailed)))))"

definition processAuction :: "Immutables \<Rightarrow> Env \<Rightarrow> Layout \<Rightarrow> nat \<Rightarrow> error + Layout" where
  "processAuction im env l epoch =
     bind (onlyVault im env) (\<lambda>_.
     (let auction = auctions l epoch in
      bind (require (status auction = FINALIZED) ''status != finalized'') (\<lambda>_.
      bind (if totalContractsSold auction > 0 then
              bind (require (totalPremiums auction > 0) ''premiums not transferred'') (\<lambda>_.
              require (long_balance env \<ge> totalContractsSold auction)
                ''long tokens not transferred'')
            else Inr ()) (\<lambda>_.
      Inr (l\<lparr>auctions := (auctions l)
               (epoch := auction\<lparr>processedTime := block_timestamp env,
                               status := PROCESSED\<rparr>)\<rparr>)))))"

definition getEpochsByBuyer :: "Layout \<Rightarrow> address \<Rightarrow> nat set" where
  "getEpochsByBuyer l b = epochsByBuyer l b"

section \<open>The vault (VaultInternal, VaultAdmin)\<close>

record Option' =
  expiry' :: nat
  strike64x64' :: int
  longTokenId' :: nat
  shortTokenId :: nat

text \<open>
  The fields of VaultStorage.Layout that the functions below read or write, with the
  owner of OwnableStorage.
\<close>

record VaultLayout =
  epoch :: nat
  isCall' :: bool
  baseDecimals' :: nat
  underlyingDecimals' :: nat
  delta64x64 :: int
  deltaOffset64x64 :: int
  reserveRate64x64 :: int
  performanceFee64x64 :: int
  withdrawalFee64x64 :: int
  feeRecipient :: address
  keeper :: address
  owner :: address
  startOffset :: nat
  endOffset :: nat
  startTime' :: nat
  auctionProcessed :: bool
  lastTotalAssets :: nat
  totalWithdrawals :: nat
  options :: "nat \<Rightarrow> Option'"

definition onlyOwner :: "VaultLayout \<Rightarrow> Env \<Rightarrow> error + unit" where
  "onlyOwner l env = require (msg_sender env = owner l) ''Ownable: sender must be owner''"

definition onlyKeeper :: "VaultLayout \<Rightarrow> Env \<Rightarrow> error + unit" where
  "onlyKeeper l env = require (msg_sender env = keeper l) ''!keeper''"

text \<open>
  The modifier \<open>withdrawalsLocked\<close>, applied to the function body it guards: \<open>body\<close> is the
  result of running the guarded function.
\<close>

definition withdrawalsLocked :: "VaultLayout \<Rightarrow> Env \<Rightarrow> (error + 'a) \<Rightarrow> error + 'a" where
  "withdrawalsLocked l env body =
     bind (if block_timestamp env \<ge> startTime' l
           then require (auctionProcessed l) ''auction has not been processed''
           else Inr ()) (\<lambda>_. body)"

definition AuctionNotProcessed :: error where
  "AuctionNotProcessed = Revert ''auction has not been processed''"

text \<open>
  Modelled from the spec: VaultBase.sol, which declares the public \<open>withdraw\<close> and
  \<open>redeem\<close>, is not among the sources. Each is the internal function of VaultInternal
  (\<open>_withdraw\<close>, \<open>_redeem\<close>) under the modifier \<open>withdrawalsLocked\<close>; the argument stands
  for the result of that internal function, whose failures are those of ERC4626 and of
  the distribution and never the modifier's.
\<close>

definition vault_withdraw :: "VaultLayout \<Rightarrow> Env \<Rightarrow> (error + 'a) \<Rightarrow> error + 'a" where
  "vault_withdraw l env withdraw_body = withdrawalsLocked l env withdraw_body"

definition vault_redeem :: "VaultLayout \<Rightarrow> Env \<Rightarrow> (error + 'a) \<Rightarrow> error + 'a" where
  "vault_redeem l env redeem_body = withdrawalsLocked l env redeem_body"

subsection \<open>Views and the withdraw distribution\<close>

definition lastEpoch :: "VaultLayout \<Rightarrow> nat" where
  "lastEpoch l = (if epoch l > 0 then epoch l - 1 else 0)"

definition lastOption :: "VaultLayout \<Rightarrow> Option'" where
  "lastOption l = options l (lastEpoch l)"

definition totalReserves :: "VaultLayout \<Rightarrow> Env \<Rightarrow> error + nat" where
  "totalReserves l env = mulu (reserveRate64x64 l) (erc20_balance env)"

definition totalCollateral :: "VaultLayout \<Rightarrow> Env \<Rightarrow> error + nat" where
  "totalCollateral l env =
     bind (totalReserves l env) (\<lambda>reserves. sub256 (erc20_balance env) reserves)"

definition totalShortAsContracts :: "VaultLayout \<Rightarrow> Env \<Rightarrow> nat" where
  "totalShortAsContracts l env = short_balance env"

definition totalShortAsCollateral :: "VaultLayout \<Rightarrow> Env \<Rightarrow> error + nat" where
  "totalShortAsCollateral l env =
     fromContractsToCollateral (totalShortAsContracts l env) (isCall' l)
       (underlyingDecimals' l) (baseDecimals' l) (strike64x64' (lastOption l))"

definition totalAssets :: "VaultLayout \<Rightarrow> Env \<Rightarrow> error + nat" where
  "totalAssets l env =
     bind (totalCollateral l env) (\<lambda>c.
     bind (totalShortAsCollateral l env) (\<lambda>s.
     add256 c s))"



subsection \<open>The calendar\<close>

definition getFriday :: "nat \<Rightarrow> error + nat" where
  "getFriday timestamp =
     (let dayOfWeek = ((timestamp div 86400) + 4) mod 7 in
      case add256 timestamp (((7 + 5 - dayOfWeek) mod 7) * 86400) of
        Inl e \<Rightarrow> Inl e
      | Inr nextFriday \<Rightarrow>
          (case add256 (nextFriday - (nextFriday mod 86400)) 28800 of
             Inl e \<Rightarrow> Inl e
           | Inr friday8am \<Rightarrow>
               if timestamp \<ge> friday8am then add256 friday8am 604800
               else Inr friday8am))"

definition getNextFriday :: "nat \<Rightarrow> error + nat" where
  "getNextFriday timestamp =
     (let dayOfWeek = ((timestamp div 86400) + 4) mod 7 in
      case add256 timestamp (((7 + 5 - dayOfWeek) mod 7) * 86400) of
        Inl e \<Rightarrow> Inl e
      | Inr nextFriday \<Rightarrow>
          (case add256 (nextFriday - (nextFriday mod 86400)) 28800 of
             Inl e \<Rightarrow> Inl e
           | Inr friday8am \<Rightarrow>
               if timestamp \<ge> friday8am \<or> friday8am - timestamp < 345600
               then add256 friday8am 604800
               else Inr friday8am))"

subsection \<open>Admin\<close>

definition setPerformanceFee64x64 :: "VaultLayout \<Rightarrow> Env \<Rightarrow> int \<Rightarrow> error + VaultLayout" where
  "setPerformanceFee64x64 l env newPerformanceFee64x64 =
     bind (onlyOwner l env) (\<lambda>_.
     bind (require (newPerformanceFee64x64 < ONE_64x64) ''fee > 1'') (\<lambda>_.
     Inr (l\<lparr>performanceFee64x64 := newPerformanceFee64x64\<rparr>)))"

definition setWithdrawalFee64x64 :: "VaultLayout \<Rightarrow> Env \<Rightarrow> int \<Rightarrow> error + VaultLayout" where
  "setWithdrawalFee64x64 l env newWithdrawalFee64x64 =
     bind (onlyOwner l env) (\<lambda>_.
     bind (require (newWithdrawalFee64x64 < ONE_64x64) ''fee > 1'') (\<lambda>_.
     Inr (l\<lparr>withdrawalFee64x64 := newWithdrawalFee64x64\<rparr>)))"

definition setDelta64x64 :: "VaultLayout \<Rightarrow> Env \<Rightarrow> int \<Rightarrow> error + VaultLayout" where
  "setDelta64x64 l env newDelta64x64 =
     bind (onlyOwner l env) (\<lambda>_.
     bind (require (newDelta64x64 > 0) ''delta <= 0'') (\<lambda>_.
     bind (require (newDelta64x64 < ONE_64x64) ''delta > 1'') (\<lambda>_.
     Inr (l\<lparr>delta64x64 := newDelta64x64\<rparr>))))"

text \<open>The token id of an option: its type in the top byte, then maturity and strike.\<close>

definition formatTokenId :: "nat \<Rightarrow> nat \<Rightarrow> int \<Rightarrow> error + nat" where
  "formatTokenId tokenType maturity strike =
     bind (add256 (tokenType * 2 ^ 248) (maturity * 2 ^ 128)) (\<lambda>hi.
     add256 hi (nat (strike mod 2 ^ 256)))"

definition setOptionParameters :: "VaultLayout \<Rightarrow> Env \<Rightarrow> error + (VaultLayout \<times> Option')" where
  "setOptionParameters l env =
     bind (getNextFriday (block_timestamp env)) (\<lambda>nf.
     (let expiry64 = nf mod 2 ^ 64;
          strike = pricer_strike64x64 env
      in bind (formatTokenId (if isCall' l then 4 else 6) expiry64 strike) (\<lambda>longId.
         bind (formatTokenId (if isCall' l then 5 else 7) expiry64 strike) (\<lambda>shortId.
         (let option = \<lparr>expiry' = expiry64, strike64x64' = strike, longTokenId' = longId,
                         shortTokenId = shortId\<rparr>
          in Inr (l\<lparr>options := (options l)(epoch l := option)\<rparr>, option))))))"

text \<open>
  \<open>initializeAuction\<close> and \<open>processAuction\<close> act on the vault and, through the calls the
  vault makes as \<open>msg.sender\<close>, on the auction contract: they return both layouts.
\<close>

definition initializeAuction ::
  "Immutables \<Rightarrow> Env \<Rightarrow> VaultLayout \<Rightarrow> Layout \<Rightarrow> error + (VaultLayout \<times> Layout)" where
  "initializeAuction im env l al =
     bind (onlyKeeper l env) (\<lambda>_.
     bind (setOptionParameters l env) (\<lambda>(l1, option).
     bind (getFriday (block_timestamp env)) (\<lambda>startTimestamp.
     bind (add256 startTimestamp (startOffset l1)) (\<lambda>startTime1.
     bind (add256 startTimestamp (endOffset l1)) (\<lambda>endTime1.
     (let l2 = l1\<lparr>startTime' := startTime1, auctionProcessed := False\<rparr>
      in bind (initialize im (env\<lparr>msg_sender := Vault im\<rparr>) al
                 \<lparr>ia_epoch = epoch l2, ia_expiry = expiry' option,
                  ia_strike64x64 = strike64x64' option, ia_longTokenId = longTokenId' option,
                  ia_startTime = startTime1, ia_endTime = endTime1\<rparr>) (\<lambda>al1.
         Inr (l2, al1))))))))"

definition isCancelled :: "Layout \<Rightarrow> nat \<Rightarrow> bool" where
  "isCancelled al e = (status (auctions al e) = CANCELLED)"

definition isFinalized :: "Layout \<Rightarrow> nat \<Rightarrow> bool" where
  "isFinalized al e = (status (auctions al e) = FINALIZED)"

definition getTotalContractsSold :: "Layout \<Rightarrow> nat \<Rightarrow> nat" where
  "getTotalContractsSold al e = totalContractsSold (auctions al e)"

definition vault_processAuction ::
  "Immutables \<Rightarrow> Env \<Rightarrow> VaultLayout \<Rightarrow> Layout \<Rightarrow> error + (VaultLayout \<times> Layout)" where
  "vault_processAuction im env l al =
     bind (onlyKeeper l env) (\<lambda>_.
     bind (totalAssets l env) (\<lambda>assets.
     (let l1 = l\<lparr>lastTotalAssets := assets\<rparr>;
          lastEpoch' = lastEpoch l1;
          lastOption' = lastOption l1;
          cancelled = isCancelled al lastEpoch';
          finalized = isFinalized al lastEpoch';
          venv = env\<lparr>msg_sender := Vault im\<rparr>
      in bind (require ((\<not> finalized \<and> cancelled) \<or> (finalized \<and> \<not> cancelled))
                 ''auction is not finalized nor cancelled'') (\<lambda>_.
         bind (if finalized \<and> \<not> cancelled then
                 bind (transferPremium im venv al lastEpoch') (\<lambda>(al1, totalPremiums').
                 (let sold = getTotalContractsSold al1 lastEpoch' in
                  bind (if sold > 0 then
                          bind (fromContractsToCollateral sold (isCall' l1)
                                  (underlyingDecimals' l1) (baseDecimals' l1)
                                  (strike64x64' lastOption')) (\<lambda>totalCollateralUsed.
                          bind (add256 (erc20_balance env) totalPremiums') (\<lambda>balance.
                          bind (mulu (reserveRate64x64 l1) balance) (\<lambda>reserves.
                          bind (add256 totalCollateralUsed reserves) (\<lambda>approved.
                          bind (add256 (block_timestamp env) 86400) (\<lambda>divestment.
                          if transfers_succeed env then Inr () else Inl ExternalCallFailed)))))
                        else Inr ()) (\<lambda>_.
                  processAuction im venv al1 lastEpoch')))
               else Inr al) (\<lambda>al2.
         Inr (l1\<lparr>auctionProcessed := True\<rparr>, al2))))))"

section \<open>Example states\<close>

text \<open>
  Concrete states and environments on which the theorems below are exercised: a vault at
  epoch 1 whose keeper, owner and auction-side caller is address 1, at the unix second
  1000000 (a Monday), and auctions of a call vault with 10 units of collateral.
\<close>

definition exEnv :: Env where
  "exEnv = \<lparr>msg_sender = 1, block_timestamp = 1000000, vault_totalCollateral = 10,
            long_balance = 0, priceAfter64x64 = 0, erc20_balance = 0, short_balance = 0,
            pricer_strike64x64 = 2000 * 2 ^ 64, transfers_succeed = True\<rparr>"

definition exIm :: Immutables where
  "exIm = \<lparr>isCall = True, baseDecimals = 18, underlyingDecimals = 18, Vault = 1\<rparr>"

definition exAuction :: Auction where
  "exAuction = zeroAuction\<lparr>status := INITIALIZED, expiry := 1929600,
     strike64x64 := 2000 * 2 ^ 64, startTime := 1332000, endTime := 1339200,
     longTokenId := 1\<rparr>"

definition exLayout :: Layout where
  "exLayout = (emptyLayout 1)\<lparr>auctions := (\<lambda>_. exAuction)\<rparr>"

definition exLayoutC :: Layout where
  "exLayoutC = (emptyLayout 1)\<lparr>auctions := (\<lambda>_. zeroAuction)(0 := cancel zeroAuction)\<rparr>"

definition exVault :: VaultLayout where
  "exVault = \<lparr>epoch = 1, isCall' = True, baseDecimals' = 18, underlyingDecimals' = 18,
     delta64x64 = 2 ^ 62, deltaOffset64x64 = 2 ^ 60, reserveRate64x64 = 0,
     performanceFee64x64 = 0, withdrawalFee64x64 = 0, feeRecipient = 3, keeper = 1,
     owner = 1, startOffset = 7200, endOffset = 14400, startTime' = 0,
     auctionProcessed = False, lastTotalAssets = 0, totalWithdrawals = 0,
     options = (\<lambda>_. \<lparr>expiry' = 0, strike64x64' = 0, longTokenId' = 0, shortTokenId = 0\<rparr>)\<rparr>"

section \<open>Order-book invariant and the traversals as list recursions\<close>

text \<open>
  The ids of a book are distinct, positive and at most the last id issued. On such a
  book, walking \<open>length\<close> steps from \<open>head\<close> along \<open>getNextOrder\<close> visits the orders in
  sequence, and the two loops are the list recursions \<open>processList\<close> and \<open>withdrawList\<close>.
\<close>

definition wf_book :: "Index \<Rightarrow> bool" where
  "wf_book index =
     (distinct (map id' (nodes index)) \<and>
      list_all (\<lambda>d. 0 < id' d \<and> id' d \<le> lastId index) (nodes index))"

definition books_ok :: "Layout \<Rightarrow> bool" where
  "books_ok l = (\<forall>e. wf_book (orderbooks l e))"

definition headId :: "Data list \<Rightarrow> nat" where
  "headId ds = (case ds of [] \<Rightarrow> 0 | d # _ \<Rightarrow> id' d)"

fun processList ::
  "Auction \<Rightarrow> nat \<Rightarrow> nat \<Rightarrow> Data list \<Rightarrow> nat \<Rightarrow> int \<Rightarrow> error + (bool \<times> int \<times> nat)" where
  "processList auction now tc [] sold lastPrice = Inr (False, lastPrice, sold)"
| "processList auction now tc (d # ds) sold lastPrice =
     (case clearingPrice64x64 auction now of
        Inl e \<Rightarrow> Inl e
      | Inr clearing \<Rightarrow>
          if price64x64 d < clearing then Inr (False, lastPrice, sold)
          else (case add256 sold (size' d) of
                  Inl e \<Rightarrow> Inl e
                | Inr reached \<Rightarrow>
                    if reached \<ge> tc then Inr (True, price64x64 d, tc)
                    else processList auction now tc ds reached (price64x64 d)))"

fun withdrawList ::
  "address \<Rightarrow> int \<Rightarrow> nat \<Rightarrow> Data list \<Rightarrow> nat \<Rightarrow> nat \<Rightarrow> nat \<Rightarrow> error + (nat \<times> nat)" where
  "withdrawList b lastPrice tc [] refund fill sold = Inr (refund, fill)"
| "withdrawList b lastPrice tc (d # ds) refund fill sold =
     (case (if buyer d = b then withdrawOrder lastPrice tc d refund fill sold
            else Inr (refund, fill)) of
        Inl e \<Rightarrow> Inl e
      | Inr (refund', fill') \<Rightarrow>
          (case add256 sold (size' d) of
             Inl e \<Rightarrow> Inl e
           | Inr sold' \<Rightarrow> withdrawList b lastPrice tc ds refund' fill' sold'))"

section \<open>The auction as a transition system\<close>

text \<open>
  The state-changing entry points of the Auction contract, and the layouts reachable
  from the empty one by successful calls, each in an environment of its own.
\<close>

datatype call =
    Initialize InitAuction
  | SetAuctionPrices nat int int
  | AddLimitOrder nat int nat
  | AddMarketOrder nat nat nat
  | CancelLimitOrder nat nat
  | Withdraw nat
  | FinalizeAuction nat
  | TransferPremium nat
  | ProcessAuction nat

fun exec :: "Immutables \<Rightarrow> Env \<Rightarrow> Layout \<Rightarrow> call \<Rightarrow> error + Layout" where
  "exec im env l (Initialize ia) = initialize im env l ia"
| "exec im env l (SetAuctionPrices e mx mn) = setAuctionPrices im env l e mx mn"
| "exec im env l (AddLimitOrder e p s) = addLimitOrder im env l e p s"
| "exec im env l (AddMarketOrder e s c) = addMarketOrder im env l e s c"
| "exec im env l (CancelLimitOrder e i) = cancelLimitOrder im env l e i"
| "exec im env l (Withdraw e) = bind (withdraw im env l e) (\<lambda>(l', refund, fill). Inr l')"
| "exec im env l (FinalizeAuction e) = finalizeAuction im env l e"
| "exec im env l (TransferPremium e) = bind (transferPremium im env l e) (\<lambda>(l', p). Inr l')"
| "exec im env l (ProcessAuction e) = processAuction im env l e"

inductive steps :: "Immutables \<Rightarrow> Layout \<Rightarrow> Layout \<Rightarrow> bool" for im :: Immutables and l :: Layout where
  steps_refl: "steps im l l"
| steps_step: "steps im l l1 \<Longrightarrow> exec im env l1 c = Inr l2 \<Longrightarrow> steps im l l2"

definition reachable :: "Immutables \<Rightarrow> Layout \<Rightarrow> bool" where
  "reachable im l = (\<exists>m. steps im (emptyLayout m) l)"

text \<open>What one successful call can do to the auction of one epoch.\<close>

inductive auction_step :: "Auction \<Rightarrow> Auction \<Rightarrow> bool" where
  as_same: "auction_step a a"
| as_init_cancel: "status a = UNINITIALIZED \<Longrightarrow> auction_step a (cancel a)"
| as_init: "status a = UNINITIALIZED \<Longrightarrow>
     auction_step a (a\<lparr>status := INITIALIZED, expiry := x, strike64x64 := k, startTime := s,
                       endTime := t, longTokenId := i\<rparr>)"
| as_prices: "status a = INITIALIZED \<Longrightarrow>
     auction_step a (a\<lparr>maxPrice64x64 := mx, minPrice64x64 := mn\<rparr>)"
| as_prices_cancel: "status a = INITIALIZED \<Longrightarrow>
     auction_step a (cancel (a\<lparr>maxPrice64x64 := mx, minPrice64x64 := mn\<rparr>))"
| as_check: "status a = INITIALIZED \<Longrightarrow> sold \<le> tc \<Longrightarrow>
     totalContracts a = 0 \<or> tc = totalContracts a \<Longrightarrow>
     st = INITIALIZED \<or> st = FINALIZED \<Longrightarrow>
     auction_step a (a\<lparr>totalContracts := tc, lastPrice64x64 := lp, totalContractsSold := sold,
                       status := st\<rparr>)"
| as_timeout: "status a = INITIALIZED \<or> status a = FINALIZED \<Longrightarrow> auction_step a (cancel a)"
| as_premium: "status a = FINALIZED \<Longrightarrow> totalPremiums a = 0 \<Longrightarrow>
     mulu (lastPrice64x64 a) (totalContractsSold a) = Inr p \<Longrightarrow>
     auction_step a (a\<lparr>totalPremiums := p\<rparr>)"
| as_process: "status a = FINALIZED \<Longrightarrow>
     auction_step a (a\<lparr>processedTime := t, status := PROCESSED\<rparr>)"

section \<open>The value sums of a withdrawal, as the specification words them\<close>

text \<open>
  \<open>price \<times> size\<close> is the 64.64 product rounded down. Over the orders of a book from head
  to tail, with \<open>sold\<close> the sizes of the orders before the current one: an order is filled
  when the auction was not cancelled and its price is at least the clearing price; the
  filled amount is \<open>min(size, remainder)\<close> with \<open>remainder = totalContracts - sold\<close>; its
  cost is the clearing price times the filled amount, and 0 when it is not filled.
\<close>

definition times64 :: "int \<Rightarrow> nat \<Rightarrow> nat" where
  "times64 x y = nat ((x * int y) div 2 ^ 64)"

definition filledAmount :: "int \<Rightarrow> nat \<Rightarrow> Data \<Rightarrow> nat \<Rightarrow> nat" where
  "filledAmount clearing tc d sold =
     (if clearing < MAX_64x64 \<and> price64x64 d \<ge> clearing then min (size' d) (tc - sold) else 0)"

fun paidSum :: "address \<Rightarrow> Data list \<Rightarrow> nat" where
  "paidSum b [] = 0"
| "paidSum b (d # ds) =
     (if buyer d = b then times64 (price64x64 d) (size' d) else 0) + paidSum b ds"

fun costSum :: "int \<Rightarrow> nat \<Rightarrow> address \<Rightarrow> Data list \<Rightarrow> nat \<Rightarrow> nat" where
  "costSum clearing tc b [] sold = 0"
| "costSum clearing tc b (d # ds) sold =
     (if buyer d = b then times64 clearing (filledAmount clearing tc d sold) else 0)
     + costSum clearing tc b ds (sold + size' d)"

fun fillSum :: "int \<Rightarrow> nat \<Rightarrow> address \<Rightarrow> Data list \<Rightarrow> nat \<Rightarrow> nat" where
  "fillSum clearing tc b [] sold = 0"
| "fillSum clearing tc b (d # ds) sold =
     (if buyer d = b then filledAmount clearing tc d sold else 0)
     + fillSum clearing tc b ds (sold + size' d)"

section \<open>Invariants of the auction record\<close>



section \<open>The outcome of the order-processing step, declaratively\<close>

text \<open>
  The total size of a sequence of orders, and the leading orders of a book that the
  order-processing step accepts: those before the first order priced below the clearing
  price.
\<close>

definition sizes :: "Data list \<Rightarrow> nat" where
  "sizes ds = sum_list (map size' ds)"

definition acceptable :: "Auction \<Rightarrow> nat \<Rightarrow> Data \<Rightarrow> bool" where
  "acceptable auction now d =
     (case clearingPrice64x64 auction now of
        Inl e \<Rightarrow> False
      | Inr clearing \<Rightarrow> \<not> price64x64 d < clearing)"

definition accepted :: "Auction \<Rightarrow> nat \<Rightarrow> Data list \<Rightarrow> Data list" where
  "accepted auction now ds = takeWhile (acceptable auction now) ds"

section \<open>Runs of calls and example runs\<close>

text \<open>
  A run executes calls in sequence, each in its own environment, and fails with the first
  failing call.
\<close>

fun run :: "Immutables \<Rightarrow> Layout \<Rightarrow> (Env \<times> call) list \<Rightarrow> error + Layout" where
  "run im l [] = Inr l"
| "run im l ((env, c) # cs) = bind (exec im env l c) (\<lambda>l'. run im l' cs)"

definition layoutOf :: "error + Layout \<Rightarrow> Layout" where
  "layoutOf r = (case r of Inl e \<Rightarrow> emptyLayout 0 | Inr l \<Rightarrow> l)"

text \<open>
  The example auction of epoch 0 opens at 1332000 and closes at 1339200, with prices from
  2 down to 1 and, the vault holding 10 units of collateral of a call, 10 contracts for
  sale. \<open>exOpen\<close> is the auction initialized and priced; in \<open>exOne\<close> buyer 7 has bid for 5
  contracts at price 2; in \<open>exTwo\<close> buyer 7 has bid again, for 2 contracts; in \<open>exSold\<close>
  buyer 8 has bid for 7 contracts after the first bid, which fills the auction; in
  \<open>exEarly\<close> buyer 7 has bid for all 10 contracts before the auction opens; in
  \<open>exTimedOut\<close> the auction has closed without a bid.
\<close>

definition ia0 :: InitAuction where
  "ia0 = \<lparr>ia_epoch = 0, ia_expiry = 1929600, ia_strike64x64 = 2000 * 2 ^ 64,
           ia_longTokenId = 1, ia_startTime = 1332000, ia_endTime = 1339200\<rparr>"

definition buyerEnv :: "address \<Rightarrow> nat \<Rightarrow> Env" where
  "buyerEnv b t = exEnv\<lparr>msg_sender := b, block_timestamp := t\<rparr>"

definition openCalls :: "(Env \<times> call) list" where
  "openCalls = [(exEnv, Initialize ia0), (exEnv, SetAuctionPrices 0 (2 * 2 ^ 64) (2 ^ 64))]"

definition oneCalls :: "(Env \<times> call) list" where
  "oneCalls = openCalls @ [(buyerEnv 7 1332000, AddLimitOrder 0 (2 * 2 ^ 64) 5)]"

definition exOpen :: Layout where
  "exOpen = layoutOf (run exIm (emptyLayout 1) openCalls)"

definition exOne :: Layout where
  "exOne = layoutOf (run exIm (emptyLayout 1) oneCalls)"

definition exTwo :: Layout where
  "exTwo = layoutOf (run exIm (emptyLayout 1)
     (oneCalls @ [(buyerEnv 7 1332000, AddLimitOrder 0 (2 * 2 ^ 64) 2)]))"

definition exSold :: Layout where
  "exSold = layoutOf (run exIm (emptyLayout 1)
     (oneCalls @ [(buyerEnv 8 1332000, AddLimitOrder 0 (2 * 2 ^ 64) 7)]))"

definition exEarly :: Layout where
  "exEarly = layoutOf (run exIm (emptyLayout 1)
     (openCalls @ [(buyerEnv 7 1000000, AddLimitOrder 0 (2 * 2 ^ 64) 10)]))"

definition exTimedOut :: Layout where
  "exTimedOut = layoutOf (run exIm (emptyLayout 1)
     (openCalls @ [(buyerEnv 9 1339201, FinalizeAuction 0)]))"

text \<open>
  In \<open>exCancelled\<close> buyer 7 has cancelled the only bid of \<open>exOne\<close>; in \<open>exKept\<close> buyer 7
  has cancelled the first of the two bids of \<open>exTwo\<close>.
\<close>

definition exCancelled :: Layout where
  "exCancelled = layoutOf (run exIm (emptyLayout 1)
     (oneCalls @ [(buyerEnv 7 1332000, CancelLimitOrder 0 1)]))"

definition exKept :: Layout where
  "exKept = layoutOf (cancelLimitOrder exIm (buyerEnv 7 1332000) exTwo 0 1)"


section \<open>The outcome of the finalize-check, as the specification words it\<close>

text \<open>
  \<open>check_outcome im env a ds a'\<close>: the auction \<open>a'\<close> is what the finalize-check makes of
  the auction \<open>a\<close> over the book \<open>ds\<close>. \<open>totalContracts\<close> is what \<open>_getTotalContracts\<close>
  answers. Either some order fills the auction: it and all orders before it are priced at
  or above the clearing price, the sizes before it stay below \<open>totalContracts\<close> and with
  it reach \<open>totalContracts\<close>; then \<open>lastPrice\<close> is its price, \<open>totalContractsSold\<close> is
  \<open>totalContracts\<close> and the status is FINALIZED. Or the traversal stops, at the first
  order priced below the clearing price or at the end of the book, with the sizes of the
  orders before that point below \<open>totalContracts\<close>; then \<open>lastPrice\<close> is the price of the
  last of them (0 when there is none), \<open>totalContractsSold\<close> is the sum of their sizes and
  the status becomes FINALIZED only when the time is past \<open>endTime\<close>. Nothing else of the
  auction changes.
\<close>

definition check_outcome :: "Immutables \<Rightarrow> Env \<Rightarrow> Auction \<Rightarrow> Data list \<Rightarrow> Auction \<Rightarrow> bool" where
  "check_outcome im env a ds a' =
     (getTotalContracts im env a = Inr (totalContracts a') \<and>
      a' = a\<lparr>totalContracts := totalContracts a', lastPrice64x64 := lastPrice64x64 a',
               totalContractsSold := totalContractsSold a', status := status a'\<rparr> \<and>
      ((\<exists>pre d suf. ds = pre @ d # suf \<and>
           list_all (acceptable a (block_timestamp env)) (pre @ [d]) \<and>
           (pre \<noteq> [] \<longrightarrow> sizes pre < totalContracts a') \<and>
           totalContracts a' \<le> sizes pre + size' d \<and>
           lastPrice64x64 a' = price64x64 d \<and>
           totalContractsSold a' = totalContracts a' \<and>
           status a' = FINALIZED) \<or>
       (\<exists>pre suf. ds = pre @ suf \<and>
           list_all (acceptable a (block_timestamp env)) pre \<and>
           (suf = [] \<or> \<not> acceptable a (block_timestamp env) (hd suf)) \<and>
           (pre \<noteq> [] \<longrightarrow> sizes pre < totalContracts a') \<and>
           lastPrice64x64 a' = (if pre = [] then 0 else price64x64 (last pre)) \<and>
           totalContractsSold a' = sizes pre \<and>
           status a' = (if endTime a < block_timestamp env then FINALIZED else status a))))"

text \<open>In \<open>exFilled\<close> buyer 7 has bid for all 10 contracts at the opening of the auction.\<close>

definition exFilled :: Layout where
  "exFilled = layoutOf (run exIm (emptyLayout 1)
     (openCalls @ [(buyerEnv 7 1332000, AddLimitOrder 0 (2 * 2 ^ 64) 10)]))"
section \<open>The pro-rata share of a withdrawal, as the specification words it\<close>





text \<open>
  In \<open>exBehind\<close> buyers 7, 8 and 9 have bid at price 2 for 5, 7 and 3 contracts before the
  auction opens; the auction is finalized just after it opens, the premium is transferred
  and the auction is processed.
\<close>

definition behindCalls :: "(Env \<times> call) list" where
  "behindCalls = openCalls @
     [(buyerEnv 7 1000000, AddLimitOrder 0 (2 * 2 ^ 64) 5),
      (buyerEnv 8 1000000, AddLimitOrder 0 (2 * 2 ^ 64) 7),
      (buyerEnv 9 1000000, AddLimitOrder 0 (2 * 2 ^ 64) 3),
      (buyerEnv 9 1332001, FinalizeAuction 0),
      (exEnv\<lparr>block_timestamp := 1332002\<rparr>, TransferPremium 0),
      (exEnv\<lparr>block_timestamp := 1332002, long_balance := 10\<rparr>, ProcessAuction 0)]"

definition exBehind :: Layout where
  "exBehind = layoutOf (run exIm (emptyLayout 1) behindCalls)"



section \<open>Basic facts\<close>

lemma bind_Inr [simp]: "bind (Inr x) f = f x"
  by (simp add: bind_def)

lemma bind_Inl [simp]: "bind (Inl e) f = Inl e"
  by (simp add: bind_def)

lemma bind_eq_Inr: "bind m f = Inr y \<longleftrightarrow> (\<exists>x. m = Inr x \<and> f x = Inr y)"
  by (cases m) simp_all

lemma require_True [simp]: "require True msg = Inr ()"
  by (simp add: require_def)

lemma require_False [simp]: "require False msg = Inl (Revert msg)"
  by (simp add: require_def)

lemma require_eq_Inr [simp]: "require c msg = Inr u \<longleftrightarrow> c"
  by (simp add: require_def)

lemma require_eq_Inl [simp]: "require c msg = Inl e \<longleftrightarrow> \<not> c \<and> e = Revert msg"
  by (auto simp: require_def)

lemma add256_eq_Inr: "add256 a b = Inr c \<longleftrightarrow> c = a + b \<and> a + b \<le> MAX_UINT256"
  by (auto simp: add256_def)

lemma sub256_eq_Inr: "sub256 a b = Inr c \<longleftrightarrow> c = a - b \<and> b \<le> a"
  by (auto simp: sub256_def)

section \<open>The calendar: \<open>_getFriday\<close>\<close>

lemma weekday_offset:
  fixes d :: nat
  shows "((7 + 5 - (d + 4) mod 7) mod 7) < 7 \<and> (d + (7 + 5 - (d + 4) mod 7) mod 7) mod 7 = 1"
proof -
  define r where "r = d mod 7"
  have r: "r < 7" by (simp add: r_def)
  have m1: "(d + 4) mod 7 = (r + 4) mod 7"
    unfolding r_def by (rule mod_add_left_eq [symmetric])
  have m2: "(d + j) mod 7 = (r + j) mod 7" for j
    unfolding r_def by (rule mod_add_left_eq [symmetric])
  from r have "r = 0 \<or> r = 1 \<or> r = 2 \<or> r = 3 \<or> r = 4 \<or> r = 5 \<or> r = 6"
    by linarith
  then have "(r + (7 + 5 - (r + 4) mod 7) mod 7) mod 7 = 1"
    by (elim disjE) simp_all
  then show ?thesis
    unfolding m1 m2 by simp
qed

lemma friday_8am_mod:
  fixes m :: nat
  assumes "m mod 7 = 1"
  shows "(86400 * m + 28800) mod 604800 = 115200"
proof -
  obtain q where m: "m = 7 * q + 1"
    using assms by (metis mult.commute div_mult_mod_eq)
  have "86400 * m + 28800 = 115200 + 604800 * q"
    by (simp add: m)
  then show ?thesis by simp
qed

lemma getFriday_eval:
  assumes k: "(7 + 5 - (t div 86400 + 4) mod 7) mod 7 = k"
    and b: "(t + k * 86400) - (t + k * 86400) mod 86400 = b"
    and le1: "t + k * 86400 \<le> MAX_UINT256"
    and le2: "b + 28800 + 604800 \<le> MAX_UINT256"
  shows "getFriday t = Inr (if t \<ge> b + 28800 then b + 28800 + 604800 else b + 28800)"
proof -
  have a1: "add256 t (k * 86400) = Inr (t + k * 86400)"
    using le1 by (simp add: add256_def)
  have a2: "add256 b 28800 = Inr (b + 28800)"
    using le2 by (simp add: add256_def)
  have a3: "add256 (b + 28800) 604800 = Inr (b + 28800 + 604800)"
    using le2 by (simp add: add256_def)
  have "getFriday t =
      (case add256 t (k * 86400) of
        Inl e \<Rightarrow> Inl e
      | Inr nextFriday \<Rightarrow>
          (case add256 (nextFriday - (nextFriday mod 86400)) 28800 of
             Inl e \<Rightarrow> Inl e
           | Inr friday8am \<Rightarrow>
               if t \<ge> friday8am then add256 friday8am 604800
               else Inr friday8am))"
    unfolding getFriday_def Let_def k ..
  also have "\<dots> = (case add256 b 28800 of
             Inl e \<Rightarrow> Inl e
           | Inr friday8am \<Rightarrow>
               if t \<ge> friday8am then add256 friday8am 604800
               else Inr friday8am)"
    unfolding a1 sum.case b ..
  also have "\<dots> = (if t \<ge> b + 28800 then Inr (b + 28800 + 604800) else Inr (b + 28800))"
    unfolding a2 sum.case a3 ..
  finally show ?thesis by (simp only: if_distrib [of Inr])
qed

lemma getFriday_value:
  assumes "t + 1209600 \<le> MAX_UINT256"
  shows "\<exists>f. getFriday t = Inr f \<and> t < f \<and> f \<le> t + 604800 \<and> f mod 604800 = 115200"
proof -
  define d where "d = t div 86400"
  define s where "s = t mod 86400"
  define k where "k = (7 + 5 - (d + 4) mod 7) mod 7"
  define b where "b = 86400 * (d + k)"
  define f where "f = (if t \<ge> b + 28800 then b + 28800 + 604800 else b + 28800)"
  have t: "t = 86400 * d + s" and s: "s < 86400"
    by (simp_all add: d_def s_def)
  have k: "k < 7" and dk: "(d + k) mod 7 = 1"
    using weekday_offset [of d] by (simp_all add: k_def)
  have e1: "t + k * 86400 = s + 86400 * (d + k)"
    by (simp add: t algebra_simps)
  have e2: "(s + 86400 * (d + k)) mod 86400 = s"
    using s by (metis mod_mult_self2 mod_less)
  have nf: "(t + k * 86400) - (t + k * 86400) mod 86400 = b"
    unfolding e1 e2 b_def by simp
  have bmod: "(b + 28800) mod 604800 = 115200"
    unfolding b_def using friday_8am_mod [OF dk] .
  have tb: "t + 604800 \<ge> b + 28800 \<and> t < b + 86400"
    using k s by (simp add: b_def t)
  have bound1: "t + k * 86400 \<le> MAX_UINT256" using assms k by simp
  have bound2: "b + 28800 + 604800 \<le> MAX_UINT256" using assms tb by simp
  have eval: "getFriday t = Inr f"
    unfolding f_def
    by (rule getFriday_eval [OF _ nf bound1 bound2]) (simp only: d_def k_def)
  have lt: "t < f"
    using tb by (simp add: f_def)
  have le: "f \<le> t + 604800"
    using tb by (simp add: f_def)
  have "(b + 28800 + 604800) mod 604800 = (b + 28800) mod 604800"
    by (rule mod_add_self2)
  then have md: "f mod 604800 = 115200"
    using bmod by (simp add: f_def)
  show ?thesis using eval lt le md by blast
qed

lemma getFriday_on_friday:
  assumes "f mod 604800 = 115200" and "f + 604800 \<le> MAX_UINT256"
  shows "getFriday f = Inr (f + 604800)"
proof -
  obtain q where f: "f = 604800 * q + 115200"
    using assms(1) by (metis div_mult_mod_eq mult.commute)
  have f': "f = 28800 + 86400 * (7 * q + 1)" by (simp add: f)
  have "f mod 86400 = 28800 mod 86400"
    unfolding f' by (rule mod_mult_self2)
  then have m: "f mod 86400 = 28800" by simp
  have "f div 86400 = (7 * q + 1) + 28800 div 86400"
    unfolding f' by (rule div_mult_self2) simp
  then have d: "f div 86400 = 7 * q + 1" by simp
  have "(7 * q + 1 + 4) mod 7 = (5 + 7 * q) mod 7" by (simp add: add.commute)
  also have "\<dots> = 5 mod 7" by (rule mod_mult_self2)
  finally have "(7 * q + 1 + 4) mod 7 = 5" by simp
  then have w: "(7 + 5 - (7 * q + 1 + 4) mod 7) mod 7 = 0" by simp
  have k: "(7 + 5 - (f div 86400 + 4) mod 7) mod 7 = 0"
    unfolding d by (rule w)
  have b: "(f + 0 * 86400) - (f + 0 * 86400) mod 86400 = f - 28800"
    using m by simp
  have ge: "28800 \<le> f" by (simp add: f)
  have "getFriday f = Inr (if f \<ge> f - 28800 + 28800 then f - 28800 + 28800 + 604800 else f - 28800 + 28800)"
    by (rule getFriday_eval [OF k b]) (use assms(2) ge in simp_all)
  then show ?thesis using ge by simp
qed

lemma small_le_MAX_UINT256: "n \<le> 2 ^ 64 \<Longrightarrow> n \<le> MAX_UINT256"
  by (simp add: MAX_UINT256_def)

text \<open>
  Claim C8 says that \<open>friday\<close> is idempotent, that is, that \<open>friday(t)\<close> is the first Friday
  08:00 UTC greater than or equal to \<open>t\<close>. On a Friday 08:00 sharp the code moves on by a
  week. The unix second 115200 is Friday 2 January 1970, 08:00 UTC, and so is every
  \<open>f\<close> with \<open>f mod 604800 = 115200\<close>: the Friday of 115200 is 720000, a week later, and the
  Friday of 720000 is 1324800, not 720000.
\<close>

theorem C8_friday_not_idempotent:
  "getFriday 115200 = Inr 720000 \<and> getFriday 720000 = Inr 1324800 \<and>
   (115200::nat) mod 604800 = 115200 \<and> (720000::nat) mod 604800 = 115200"
  by (simp add: getFriday_def add256_def MAX_UINT256_def)

text \<open>
  Claim C8, amended: for every unix second \<open>t\<close> (far from the end of the \<open>uint256\<close> range)
  \<open>_getFriday\<close> returns the first Friday 08:00 UTC strictly after \<open>t\<close>: a second \<open>f\<close> with
  \<open>t < f \<le> t + 7 days\<close> that is a Friday 08:00 UTC. Hence applying it twice moves one
  week further: \<open>friday(friday(t)) = friday(t) + 7 days\<close>.
\<close>

theorem C8_friday_strictly_after:
  assumes "t + 1209600 \<le> MAX_UINT256"
  shows "\<exists>f. getFriday t = Inr f \<and> t < f \<and> f \<le> t + 604800 \<and> f mod 604800 = 115200 \<and>
             getFriday f = Inr (f + 604800)"
proof -
  obtain f where f: "getFriday t = Inr f" "t < f" "f \<le> t + 604800" "f mod 604800 = 115200"
    using getFriday_value [OF assms] by blast
  have "f + 604800 \<le> MAX_UINT256" using f(3) assms by simp
  then have "getFriday f = Inr (f + 604800)"
    by (rule getFriday_on_friday [OF f(4)])
  with f show ?thesis by blast
qed

theorem C8_friday_strictly_after_witness:
  "getFriday 1000000 = Inr 1324800 \<and> getFriday 1324800 = Inr 1929600"
proof -
  have "(1000000::nat) + 1209600 \<le> MAX_UINT256"
    by (rule small_le_MAX_UINT256) simp
  from C8_friday_strictly_after [OF this]
  obtain f where f: "getFriday 1000000 = Inr f" "getFriday f = Inr (f + 604800)"
    by blast
  have "getFriday 1000000 = Inr 1324800"
    by (simp add: getFriday_def add256_def MAX_UINT256_def)
  with f have "f = 1324800" by simp
  with f show ?thesis by simp
qed

section \<open>Auction prices: \<open>setAuctionPrices\<close>\<close>

text \<open>
  Claim C5: a call of \<open>setAuctionPrices\<close> by the vault on an Initialized auction always
  succeeds and stores the two prices. If \<open>maxPrice \<le> 0\<close>, \<open>minPrice \<le> 0\<close> or
  \<open>maxPrice \<le> minPrice\<close>, the auction ends Cancelled with \<open>lastPrice\<close> the largest
  \<open>int128\<close>, \<open>2^127 - 1\<close>, and \<open>totalPremiums = 0\<close>; for every other pair it stays
  Initialized.
\<close>

theorem C5_setAuctionPrices:
  assumes "msg_sender env = Vault im" and "status (auctions l e) = INITIALIZED"
  shows "\<exists>l'. setAuctionPrices im env l e maxPrice minPrice = Inr l' \<and>
           maxPrice64x64 (auctions l' e) = maxPrice \<and>
           minPrice64x64 (auctions l' e) = minPrice \<and>
           (if maxPrice \<le> 0 \<or> minPrice \<le> 0 \<or> maxPrice \<le> minPrice
            then status (auctions l' e) = CANCELLED \<and>
                 lastPrice64x64 (auctions l' e) = 2 ^ 127 - 1 \<and>
                 totalPremiums (auctions l' e) = 0
            else status (auctions l' e) = INITIALIZED)"
  using assms
  by (simp add: setAuctionPrices_def onlyVault_def cancel_def MAX_64x64_def Let_def)

theorem C5_setAuctionPrices_witness:
  "(\<exists>l'. setAuctionPrices exIm exEnv exLayout 0 5 10 = Inr l' \<and>
         status (auctions l' 0) = CANCELLED \<and> lastPrice64x64 (auctions l' 0) = 2 ^ 127 - 1) \<and>
   (\<exists>l'. setAuctionPrices exIm exEnv exLayout 0 1000 10 = Inr l' \<and>
         status (auctions l' 0) = INITIALIZED \<and> maxPrice64x64 (auctions l' 0) = 1000)"
proof -
  have s: "msg_sender exEnv = Vault exIm" "status (auctions exLayout 0) = INITIALIZED"
    by (simp_all add: exEnv_def exIm_def exLayout_def exAuction_def zeroAuction_def)
  show ?thesis
    using C5_setAuctionPrices [OF s, of 5 10] C5_setAuctionPrices [OF s, of 1000 10]
    by auto
qed

section \<open>Fee setters\<close>

text \<open>
  Claim C9 says the fee setters accept a value if and only if it lies in \<open>[0,1)\<close>. They
  check the upper bound only: the owner's call with the \<open>int128\<close> \<open>-1\<close> succeeds and
  stores a negative fee, where the sibling setter \<open>setDelta64x64\<close> rejects it.
\<close>

theorem C9_negative_fee_accepted:
  "setPerformanceFee64x64 exVault exEnv (- 1) = Inr (exVault\<lparr>performanceFee64x64 := - 1\<rparr>) \<and>
   setWithdrawalFee64x64 exVault exEnv (- 1) = Inr (exVault\<lparr>withdrawalFee64x64 := - 1\<rparr>) \<and>
   setDelta64x64 exVault exEnv (- 1) = Inl (Revert ''delta <= 0'') \<and>
   MIN_64x64 \<le> - 1 \<and> - 1 \<le> MAX_64x64"
  by (simp add: setPerformanceFee64x64_def setWithdrawalFee64x64_def setDelta64x64_def
      onlyOwner_def exVault_def exEnv_def ONE_64x64_def MIN_64x64_def MAX_64x64_def)

section \<open>The withdrawal lock\<close>

lemma withdrawalsLocked_eq:
  assumes "body \<noteq> Inl AuctionNotProcessed"
  shows "withdrawalsLocked l env body = Inl AuctionNotProcessed \<longleftrightarrow>
         block_timestamp env \<ge> startTime' l \<and> \<not> auctionProcessed l"
  using assms by (auto simp: withdrawalsLocked_def AuctionNotProcessed_def)

lemma withdrawalsLocked_open:
  "\<not> (block_timestamp env \<ge> startTime' l \<and> \<not> auctionProcessed l) \<Longrightarrow>
   withdrawalsLocked l env body = body"
  by (auto simp: withdrawalsLocked_def)

lemma setOptionParameters_frame:
  "setOptionParameters l env = Inr (l1, opt) \<Longrightarrow>
   startOffset l1 = startOffset l \<and> endOffset l1 = endOffset l"
  by (auto simp: setOptionParameters_def bind_eq_Inr Let_def)

lemma initializeAuction_lock:
  assumes "initializeAuction im env l al = Inr (l1, al1)"
  shows "\<not> auctionProcessed l1 \<and>
         (\<exists>f. getFriday (block_timestamp env) = Inr f \<and> startTime' l1 = f + startOffset l)"
  using assms setOptionParameters_frame
  by (fastforce simp: initializeAuction_def bind_eq_Inr Let_def add256_eq_Inr split: prod.splits)

lemma vault_processAuction_lock:
  assumes "vault_processAuction im env l al = Inr (l2, al2)"
  shows "auctionProcessed l2 \<and> startTime' l2 = startTime' l"
  using assms
  by (auto simp: vault_processAuction_def bind_eq_Inr Let_def split: prod.splits)

text \<open>
  Claim C7: \<open>withdraw\<close> and \<open>redeem\<close> fail with the error of the lock, "auction has not
  been processed", exactly when \<open>block.timestamp \<ge> startTime\<close> and \<open>auctionProcessed\<close> is
  false (whatever else the guarded function does, as long as that error is the
  modifier's alone). A successful \<open>initializeAuction\<close> sets \<open>auctionProcessed\<close> to false and
  \<open>startTime\<close> to the Friday of the current time plus \<open>startOffset\<close>, so that from then on
  the two fail with that error exactly from \<open>startTime\<close> on; a successful \<open>processAuction\<close>
  sets \<open>auctionProcessed\<close> to true, after which the lock never fires.
\<close>

theorem C7_withdrawal_lock:
  fixes body :: "error + 'a"
  shows "(body \<noteq> Inl AuctionNotProcessed \<longrightarrow>
      (vault_withdraw l env body = Inl AuctionNotProcessed \<longleftrightarrow>
         block_timestamp env \<ge> startTime' l \<and> \<not> auctionProcessed l) \<and>
      (vault_redeem l env body = Inl AuctionNotProcessed \<longleftrightarrow>
         block_timestamp env \<ge> startTime' l \<and> \<not> auctionProcessed l)) \<and>
    (initializeAuction im env l al = Inr (l1, al1) \<longrightarrow>
       \<not> auctionProcessed l1 \<and>
       (\<exists>f. getFriday (block_timestamp env) = Inr f \<and> startTime' l1 = f + startOffset l) \<and>
       (\<forall>env' (b :: error + 'a). b \<noteq> Inl AuctionNotProcessed \<longrightarrow>
          (vault_withdraw l1 env' b = Inl AuctionNotProcessed \<longleftrightarrow>
             block_timestamp env' \<ge> startTime' l1))) \<and>
    (vault_processAuction im env l al = Inr (l2, al2) \<longrightarrow>
       auctionProcessed l2 \<and> startTime' l2 = startTime' l \<and>
       (\<forall>env' (b :: error + 'a). vault_withdraw l2 env' b = b \<and> vault_redeem l2 env' b = b))"
proof (intro conjI impI allI)
  assume "body \<noteq> Inl AuctionNotProcessed"
  then show "vault_withdraw l env body = Inl AuctionNotProcessed \<longleftrightarrow>
         block_timestamp env \<ge> startTime' l \<and> \<not> auctionProcessed l"
    unfolding vault_withdraw_def by (rule withdrawalsLocked_eq)
next
  assume "body \<noteq> Inl AuctionNotProcessed"
  then show "vault_redeem l env body = Inl AuctionNotProcessed \<longleftrightarrow>
         block_timestamp env \<ge> startTime' l \<and> \<not> auctionProcessed l"
    unfolding vault_redeem_def by (rule withdrawalsLocked_eq)
next
  assume "initializeAuction im env l al = Inr (l1, al1)"
  then show "\<not> auctionProcessed l1" using initializeAuction_lock by blast
next
  assume "initializeAuction im env l al = Inr (l1, al1)"
  then show "\<exists>f. getFriday (block_timestamp env) = Inr f \<and> startTime' l1 = f + startOffset l"
    using initializeAuction_lock by blast
next
  fix env' and b :: "error + 'a"
  assume "initializeAuction im env l al = Inr (l1, al1)" and b: "b \<noteq> Inl AuctionNotProcessed"
  then have "\<not> auctionProcessed l1" using initializeAuction_lock by blast
  then show "vault_withdraw l1 env' b = Inl AuctionNotProcessed \<longleftrightarrow>
             block_timestamp env' \<ge> startTime' l1"
    unfolding vault_withdraw_def using withdrawalsLocked_eq [OF b, of l1 env'] by simp
next
  assume "vault_processAuction im env l al = Inr (l2, al2)"
  then show "auctionProcessed l2" using vault_processAuction_lock by blast
next
  assume "vault_processAuction im env l al = Inr (l2, al2)"
  then show "startTime' l2 = startTime' l" using vault_processAuction_lock by blast
next
  fix env' and b :: "error + 'a"
  assume "vault_processAuction im env l al = Inr (l2, al2)"
  then have "auctionProcessed l2" using vault_processAuction_lock by blast
  then show "vault_withdraw l2 env' b = b"
    unfolding vault_withdraw_def by (simp add: withdrawalsLocked_open)
next
  fix env' and b :: "error + 'a"
  assume "vault_processAuction im env l al = Inr (l2, al2)"
  then have "auctionProcessed l2" using vault_processAuction_lock by blast
  then show "vault_redeem l2 env' b = b"
    unfolding vault_redeem_def by (simp add: withdrawalsLocked_open)
qed


lemma ex_initializeAuction:
  "\<exists>l1 al1. initializeAuction exIm exEnv exVault exLayoutC = Inr (l1, al1) \<and>
     (\<exists>l2 al2. vault_processAuction exIm (exEnv\<lparr>block_timestamp := 1340000\<rparr>) l1 al1 = Inr (l2, al2))"
  by (simp add: initializeAuction_def vault_processAuction_def onlyKeeper_def
      setOptionParameters_def getNextFriday_def getFriday_def formatTokenId_def
      add256_def MAX_UINT256_def initialize_def onlyVault_def exIm_def exEnv_def exVault_def
      exLayoutC_def emptyLayout_def zeroAuction_def cancel_def Let_def
      totalAssets_def totalCollateral_def totalReserves_def totalShortAsCollateral_def
      totalShortAsContracts_def fromContractsToCollateral_def mulu_def sub256_def
      lastEpoch_def lastOption_def isCancelled_def isFinalized_def)

theorem C7_withdrawal_lock_witness:
  "vault_withdraw exVault exEnv (Inr ()) = Inl AuctionNotProcessed \<and>
   (\<exists>l1 al1. initializeAuction exIm exEnv exVault exLayoutC = Inr (l1, al1) \<and>
      startTime' l1 = 1332000 \<and> \<not> auctionProcessed l1 \<and>
      vault_withdraw l1 exEnv (Inr ()) = Inr () \<and>
      vault_withdraw l1 (exEnv\<lparr>block_timestamp := 1332000\<rparr>) (Inr ()) = Inl AuctionNotProcessed \<and>
      (\<exists>l2 al2. vault_processAuction exIm (exEnv\<lparr>block_timestamp := 1340000\<rparr>) l1 al1 = Inr (l2, al2) \<and>
         auctionProcessed l2 \<and>
         vault_withdraw l2 (exEnv\<lparr>block_timestamp := 1340000\<rparr>) (Inr ()) = Inr ()))"
proof -
  obtain l1 al1 l2 al2 where
    i: "initializeAuction exIm exEnv exVault exLayoutC = Inr (l1, al1)" and
    p: "vault_processAuction exIm (exEnv\<lparr>block_timestamp := 1340000\<rparr>) l1 al1 = Inr (l2, al2)"
    using ex_initializeAuction by blast
  have b: "(Inr () :: error + unit) \<noteq> Inl AuctionNotProcessed" by simp
  note A = C7_withdrawal_lock [where body = "Inr () :: error + unit" and l = exVault
      and env = exEnv and im = exIm and al = exLayoutC and ?l1.0 = l1 and ?al1.0 = al1]
  note B = C7_withdrawal_lock [where body = "Inr () :: error + unit" and l = l1
      and env = "exEnv\<lparr>block_timestamp := 1340000\<rparr>" and im = exIm and al = al1
      and ?l2.0 = l2 and ?al2.0 = al2]
  have f: "getFriday (block_timestamp exEnv) = Inr 1324800"
    by (simp add: getFriday_def add256_def MAX_UINT256_def exEnv_def)
  have s0: "block_timestamp exEnv \<ge> startTime' exVault \<and> \<not> auctionProcessed exVault"
    by (simp add: exEnv_def exVault_def)
  have w0: "vault_withdraw exVault exEnv (Inr ()) = Inl AuctionNotProcessed"
    using A b s0 by blast
  have np: "\<not> auctionProcessed l1" using A i by blast
  have st: "startTime' l1 = 1332000"
  proof -
    from A i obtain f' where "getFriday (block_timestamp exEnv) = Inr f'"
      "startTime' l1 = f' + startOffset exVault" by blast
    with f show ?thesis by (simp add: exVault_def)
  qed
  have L: "\<And>env'. vault_withdraw l1 env' (Inr ()) = Inl AuctionNotProcessed \<longleftrightarrow>
             block_timestamp env' \<ge> startTime' l1"
    using A i b by blast
  have w1: "vault_withdraw l1 exEnv (Inr ()) = Inr ()"
    using np st by (simp add: vault_withdraw_def withdrawalsLocked_def exEnv_def)
  have w2: "vault_withdraw l1 (exEnv\<lparr>block_timestamp := 1332000\<rparr>) (Inr ()) = Inl AuctionNotProcessed"
    using L [of "exEnv\<lparr>block_timestamp := 1332000\<rparr>"] st by simp
  have p2: "auctionProcessed l2" using B p by blast
  have w3: "vault_withdraw l2 (exEnv\<lparr>block_timestamp := 1340000\<rparr>) (Inr ()) = Inr ()"
    using B p by blast
  show ?thesis using w0 i st np w1 w2 p p2 w3 by blast
qed

section \<open>The traversals as list recursions\<close>

lemma find_by_id:
  "distinct (map id' (pre @ d # suf)) \<Longrightarrow> find (\<lambda>x. id' x = id' d) (pre @ d # suf) = Some d"
  by (induction pre) auto

lemma nextOf_by_id:
  "distinct (map id' (pre @ d # suf)) \<Longrightarrow> nextOf (id' d) (pre @ d # suf) = headId suf"
proof (induction pre)
  case Nil
  then show ?case by (cases suf) (simp_all add: headId_def)
next
  case (Cons a pre)
  then have "id' a \<noteq> id' d" by auto
  moreover obtain e es where "pre @ d # suf = e # es" by (cases pre) auto
  ultimately show ?case using Cons by auto
qed

lemma getOrderById_at:
  "nodes ob = pre @ d # suf \<Longrightarrow> distinct (map id' (nodes ob)) \<Longrightarrow> getOrderById ob (id' d) = d"
  by (simp add: getOrderById_def find_by_id)

lemma getNextOrder_at:
  "nodes ob = pre @ d # suf \<Longrightarrow> distinct (map id' (nodes ob)) \<Longrightarrow>
   getNextOrder ob (id' d) = headId suf"
  by (simp add: getNextOrder_def nextOf_by_id)

lemma processLoop_list:
  "nodes ob = pre @ suf \<Longrightarrow> distinct (map id' (nodes ob)) \<Longrightarrow>
   processLoop (length suf) a now ob tc (headId suf) sold lp = processList a now tc suf sold lp"
proof (induction suf arbitrary: pre sold lp)
  case Nil
  then show ?case by simp
next
  case (Cons d suf)
  have g: "getOrderById ob (id' d) = d" using Cons.prems by (rule getOrderById_at)
  have n: "getNextOrder ob (id' d) = headId suf" using Cons.prems by (rule getNextOrder_at)
  have "nodes ob = (pre @ [d]) @ suf" using Cons.prems by simp
  note IH = Cons.IH [OF this Cons.prems(2)]
  show ?case
    by (simp add: headId_def g n Let_def IH [unfolded headId_def] split: sum.splits)
qed

lemma remove_at:
  assumes "nodes ob = pre @ d # suf" and "distinct (map id' (nodes ob))"
  shows "fst (remove ob (id' d)) = ob\<lparr>nodes := pre @ suf\<rparr>"
proof -
  have notin: "id' d \<notin> set (map id' pre)" "id' d \<notin> set (map id' suf)"
    using assms(2) unfolding assms(1) by auto
  have ne1: "\<And>x. x \<in> set pre \<Longrightarrow> id' x \<noteq> id' d"
    using notin(1) by (metis imageI list.set_map)
  have ne2: "\<And>x. x \<in> set suf \<Longrightarrow> id' x \<noteq> id' d"
    using notin(2) by (metis imageI list.set_map)
  have "filter (\<lambda>x. id' x \<noteq> id' d) pre = pre"
    using ne1 by (intro filter_True) blast
  moreover have "filter (\<lambda>x. id' x \<noteq> id' d) suf = suf"
    using ne2 by (intro filter_True) blast
  ultimately have "filter (\<lambda>x. id' x \<noteq> id' d) (pre @ d # suf) = pre @ suf"
    by simp
  then show ?thesis using assms(1) by (simp add: remove_def)
qed

lemma nodes_update_twice: "(ob\<lparr>nodes := x\<rparr>)\<lparr>nodes := y\<rparr> = ob\<lparr>nodes := y\<rparr>"
  by simp

lemma withdrawLoop_list_preview:
  "nodes ob = pre @ suf \<Longrightarrow> distinct (map id' (nodes ob)) \<Longrightarrow>
   withdrawLoop (length suf) True b lp tc ob (headId suf) refund fill sold =
     bind (withdrawList b lp tc suf refund fill sold) (\<lambda>(r, f). Inr (r, f, ob))"
proof (induction suf arbitrary: pre refund fill sold)
  case Nil
  then show ?case by simp
next
  case (Cons d suf)
  have g: "getOrderById ob (id' d) = d" using Cons.prems by (rule getOrderById_at)
  have n: "getNextOrder ob (id' d) = headId suf" using Cons.prems by (rule getNextOrder_at)
  have "nodes ob = (pre @ [d]) @ suf" using Cons.prems by simp
  note IH = Cons.IH [OF this Cons.prems(2)]
  show ?case
    by (simp add: headId_def [of "d # suf"] withdrawStep_def g n Let_def IH
        split: sum.splits prod.splits)
qed

lemma withdrawLoop_list_remove:
  "nodes ob = pre @ suf \<Longrightarrow> distinct (map id' (nodes ob)) \<Longrightarrow>
   withdrawLoop (length suf) False b lp tc ob (headId suf) refund fill sold =
     bind (withdrawList b lp tc suf refund fill sold)
       (\<lambda>(r, f). Inr (r, f, ob\<lparr>nodes := pre @ filter (\<lambda>d. buyer d \<noteq> b) suf\<rparr>))"
proof (induction suf arbitrary: ob pre refund fill sold)
  case Nil
  then have "ob\<lparr>nodes := pre\<rparr> = ob" by simp
  then show ?case by simp
next
  case (Cons d suf)
  have g: "getOrderById ob (id' d) = d" using Cons.prems by (rule getOrderById_at)
  have n: "getNextOrder ob (id' d) = headId suf" using Cons.prems by (rule getNextOrder_at)
  have rm: "fst (remove ob (id' d)) = ob\<lparr>nodes := pre @ suf\<rparr>"
    using Cons.prems by (rule remove_at)
  have d1: "distinct (map id' (pre @ suf))" using Cons.prems by simp
  have IH1: "withdrawLoop (length suf) False b lp tc (ob\<lparr>nodes := pre @ suf\<rparr>) (headId suf) r f s =
     bind (withdrawList b lp tc suf r f s)
       (\<lambda>(r', f'). Inr (r', f', ob\<lparr>nodes := pre @ filter (\<lambda>d. buyer d \<noteq> b) suf\<rparr>))" for r f s
    using Cons.IH [of "ob\<lparr>nodes := pre @ suf\<rparr>" pre r f s] d1
    by (simp add: nodes_update_twice del: distinct_append)
  have IH2: "withdrawLoop (length suf) False b lp tc ob (headId suf) r f s =
     bind (withdrawList b lp tc suf r f s)
       (\<lambda>(r', f'). Inr (r', f', ob\<lparr>nodes := pre @ d # filter (\<lambda>d. buyer d \<noteq> b) suf\<rparr>))" for r f s
    using Cons.IH [of ob "pre @ [d]" r f s] Cons.prems by simp
  show ?case
  proof (cases "buyer d = b")
    case False
    then show ?thesis
      by (simp add: headId_def [of "d # suf"] withdrawStep_def g n Let_def IH2
          split: sum.splits prod.splits)
  next
    case True
    then show ?thesis
      by (simp add: headId_def [of "d # suf"] withdrawStep_def g n Let_def rm IH1
          split: sum.splits prod.splits)
  qed
qed


section \<open>Every successful call is a step of the auction record\<close>

lemma clearingPrice_totalContracts [simp]:
  "clearingPrice64x64 (a\<lparr>totalContracts := tc\<rparr>) now = clearingPrice64x64 a now"
  by (simp add: clearingPrice64x64_def priceCurve64x64_def lastPrice64x64'_def cong: if_cong)

lemma processLoop_sold_le:
  "processLoop n a now ob tc next sold lp = Inr (filled, lp', sold') \<Longrightarrow> sold \<le> tc \<Longrightarrow>
   sold' \<le> tc"
proof (induction n arbitrary: "next" sold lp)
  case 0
  then show ?case by simp
next
  case (Suc n)
  then show ?case
    by (auto simp: Let_def add256_eq_Inr split: sum.splits if_splits)
qed

lemma getTotalContracts_frozen:
  "getTotalContracts im env a = Inr tc \<Longrightarrow> totalContracts a = 0 \<or> tc = totalContracts a"
  by (auto simp: getTotalContracts_def split: if_splits)

lemma processOrders_frame:
  assumes "processOrders im env l e = Inr (l', filled)"
  shows "\<exists>tc lp sold. sold \<le> tc \<and>
           (totalContracts (auctions l e) = 0 \<or> tc = totalContracts (auctions l e)) \<and>
           l' = l\<lparr>auctions := (auctions l)
                  (e := (auctions l e)\<lparr>totalContracts := tc, lastPrice64x64 := lp,
                                        totalContractsSold := sold\<rparr>)\<rparr>"
proof -
  from assms obtain tc lp sold where
    tc: "getTotalContracts im env (auctions l e) = Inr tc" and
    loop: "processLoop (length' (orderbooks l e))
             (if totalContracts (auctions l e) \<le> 0 then (auctions l e)\<lparr>totalContracts := tc\<rparr>
              else auctions l e)
             (block_timestamp env) (orderbooks l e) tc (head (orderbooks l e)) 0 0
           = Inr (filled, lp, sold)" and
    l': "l' = l\<lparr>auctions := (auctions l)
               (e := (if totalContracts (auctions l e) \<le> 0
                      then (auctions l e)\<lparr>totalContracts := tc\<rparr> else auctions l e)
                     \<lparr>lastPrice64x64 := lp, totalContractsSold := sold\<rparr>)\<rparr>"
    by (auto simp: processOrders_def Let_def bind_eq_Inr split: prod.splits)
  have fz: "totalContracts (auctions l e) = 0 \<or> tc = totalContracts (auctions l e)"
    using tc by (rule getTotalContracts_frozen)
  have le: "sold \<le> tc" using processLoop_sold_le [OF loop] by simp
  have "(if totalContracts (auctions l e) \<le> 0
         then (auctions l e)\<lparr>totalContracts := tc\<rparr> else auctions l e)
        = (auctions l e)\<lparr>totalContracts := tc\<rparr>"
    using fz by auto
  with l' le fz show ?thesis by auto
qed

lemma finalizeAuction'_frame:
  assumes "finalizeAuction' im env l e = Inr l'"
  shows "\<exists>tc lp sold st. sold \<le> tc \<and>
           (totalContracts (auctions l e) = 0 \<or> tc = totalContracts (auctions l e)) \<and>
           (st = status (auctions l e) \<or> st = FINALIZED) \<and>
           l' = l\<lparr>auctions := (auctions l)
                  (e := (auctions l e)\<lparr>totalContracts := tc, lastPrice64x64 := lp,
                                        totalContractsSold := sold, status := st\<rparr>)\<rparr>"
proof -
  from assms obtain l1 filled where
    p: "processOrders im env l e = Inr (l1, filled)" and
    rx: "(if filled \<or> block_timestamp env > endTime (auctions l1 e)
           then Inr (l1\<lparr>auctions := (auctions l1)(e := (auctions l1 e)\<lparr>status := FINALIZED\<rparr>)\<rparr>)
           else Inr l1) = (Inr l' :: error + Layout)"
    by (auto simp: finalizeAuction'_def bind_eq_Inr split: prod.splits)
  have l': "l' = (if filled \<or> block_timestamp env > endTime (auctions l1 e)
               then l1\<lparr>auctions := (auctions l1)(e := (auctions l1 e)\<lparr>status := FINALIZED\<rparr>)\<rparr>
               else l1)"
    using rx by (auto split: if_splits)
  from processOrders_frame [OF p] obtain tc lp sold where
    le: "sold \<le> tc" and
    fz: "totalContracts (auctions l e) = 0 \<or> tc = totalContracts (auctions l e)" and
    l1: "l1 = l\<lparr>auctions := (auctions l)
                  (e := (auctions l e)\<lparr>totalContracts := tc, lastPrice64x64 := lp,
                                        totalContractsSold := sold\<rparr>)\<rparr>"
    by blast
  show ?thesis
  proof (cases "filled \<or> block_timestamp env > endTime (auctions l1 e)")
    case True
    then have "l' = l\<lparr>auctions := (auctions l)
                  (e := (auctions l e)\<lparr>totalContracts := tc, lastPrice64x64 := lp,
                                        totalContractsSold := sold, status := FINALIZED\<rparr>)\<rparr>"
      using l' l1 by simp
    with le fz show ?thesis by blast
  next
    case False
    then have "l' = l\<lparr>auctions := (auctions l)
                  (e := (auctions l e)\<lparr>totalContracts := tc, lastPrice64x64 := lp,
                                        totalContractsSold := sold,
                                        status := status (auctions l e)\<rparr>)\<rparr>"
      using l' l1 by simp
    with le fz show ?thesis by blast
  qed
qed


lemma limitOrdersAllowed_status:
  "limitOrdersAllowed a now = Inr u \<Longrightarrow> status a = INITIALIZED"
  by (auto simp: limitOrdersAllowed_def bind_eq_Inr)

lemma marketOrdersAllowed_status:
  "marketOrdersAllowed a now = Inr u \<Longrightarrow> status a = INITIALIZED"
  by (auto simp: marketOrdersAllowed_def bind_eq_Inr)

lemma initialize_step:
  "initialize im env l ia = Inr l' \<Longrightarrow> auction_step (auctions l e0) (auctions l' e0)"
  by (auto simp: initialize_def bind_eq_Inr Let_def split: if_splits
      intro: as_same as_init_cancel as_init)

lemma setAuctionPrices_step:
  "setAuctionPrices im env l e mx mn = Inr l' \<Longrightarrow> auction_step (auctions l e0) (auctions l' e0)"
  by (auto simp: setAuctionPrices_def bind_eq_Inr Let_def split: if_splits
      intro: as_same as_prices as_prices_cancel)

lemma finalizeAuction'_step:
  assumes "finalizeAuction' im env l e = Inr l'" and "status (auctions l e) = INITIALIZED"
  shows "auction_step (auctions l e0) (auctions l' e0)"
proof -
  from finalizeAuction'_frame [OF assms(1)] obtain tc lp sold st where
    le: "sold \<le> tc" and
    fz: "totalContracts (auctions l e) = 0 \<or> tc = totalContracts (auctions l e)" and
    st: "st = status (auctions l e) \<or> st = FINALIZED" and
    l': "l' = l\<lparr>auctions := (auctions l)
                  (e := (auctions l e)\<lparr>totalContracts := tc, lastPrice64x64 := lp,
                                        totalContractsSold := sold, status := st\<rparr>)\<rparr>"
    by blast
  have st': "st = INITIALIZED \<or> st = FINALIZED" using st assms(2) by auto
  show ?thesis
  proof (cases "e0 = e")
    case True
    then show ?thesis using as_check [OF assms(2) le fz st', of lp] l' by simp
  next
    case False
    then show ?thesis using l' by (simp add: as_same)
  qed
qed

lemma addOrder_step:
  assumes "addOrder im env l e p s = Inr l'" and "status (auctions l e) = INITIALIZED"
  shows "auction_step (auctions l e0) (auctions l' e0)"
proof -
  define l2 where "l2 = l\<lparr>epochsByBuyer := (epochsByBuyer l)
                   (msg_sender env := insert e (epochsByBuyer l (msg_sender env))),
                 orderbooks := (orderbooks l)
                   (e := fst (insert' (orderbooks l e) p s (msg_sender env)))\<rparr>"
  have a2: "auctions l2 = auctions l" by (simp add: l2_def)
  show ?thesis
  proof (cases "block_timestamp env \<ge> startTime (auctions l e)")
    case True
    then have "finalizeAuction' im env l2 e = Inr l'"
      using assms(1) by (simp add: addOrder_def Let_def l2_def)
    from finalizeAuction'_step [OF this, of e0] assms(2) show ?thesis by (simp add: a2)
  next
    case False
    then have "l' = l2" using assms(1) by (simp add: addOrder_def Let_def l2_def)
    then show ?thesis by (simp add: a2 as_same)
  qed
qed

lemma addLimitOrder_step:
  assumes "addLimitOrder im env l e p s = Inr l'"
  shows "auction_step (auctions l e0) (auctions l' e0)"
proof -
  from assms have "status (auctions l e) = INITIALIZED" and "addOrder im env l e p s = Inr l'"
    by (auto simp: addLimitOrder_def bind_eq_Inr split: if_splits
        dest: limitOrdersAllowed_status)
  then show ?thesis using addOrder_step by blast
qed

lemma addMarketOrder_step:
  assumes "addMarketOrder im env l e s c = Inr l'"
  shows "auction_step (auctions l e0) (auctions l' e0)"
proof -
  from assms have "status (auctions l e) = INITIALIZED" and
      "\<exists>p. addOrder im env l e p s = Inr l'"
    by (auto simp: addMarketOrder_def bind_eq_Inr split: if_splits prod.splits
        dest: marketOrdersAllowed_status)
  then show ?thesis using addOrder_step by blast
qed

lemma cancelLimitOrder_step:
  assumes "cancelLimitOrder im env l e i = Inr l'"
  shows "auction_step (auctions l e0) (auctions l' e0)"
proof -
  define d where "d = getOrderById (orderbooks l e) i"
  define l2 where "l2 = l\<lparr>orderbooks := (orderbooks l)(e := fst (remove (orderbooks l e) i)),
                 epochsByBuyer := (epochsByBuyer l)
                   (buyer d := epochsByBuyer l (buyer d) - {e})\<rparr>"
  have a2: "auctions l2 = auctions l" by (simp add: l2_def)
  from assms have st: "status (auctions l e) = INITIALIZED"
    by (auto simp: cancelLimitOrder_def bind_eq_Inr dest: limitOrdersAllowed_status)
  show ?thesis
  proof (cases "block_timestamp env \<ge> startTime (auctions l e)")
    case True
    then have "finalizeAuction' im env l2 e = Inr l'"
      using assms
      by (auto simp: cancelLimitOrder_def bind_eq_Inr Let_def l2_def d_def split: if_splits)
    from finalizeAuction'_step [OF this, of e0] st show ?thesis by (simp add: a2)
  next
    case False
    then have "l' = l2"
      using assms
      by (auto simp: cancelLimitOrder_def bind_eq_Inr Let_def l2_def d_def split: if_splits)
    then show ?thesis by (simp add: a2 as_same)
  qed
qed

lemma withdraw_auctions:
  "withdraw im env l e = Inr (l', refund, fill) \<Longrightarrow> auctions l' = auctions l"
  by (auto simp: withdraw_def withdraw'_def bind_eq_Inr Let_def split: if_splits prod.splits)

lemma finalizeAuction_step:
  assumes "finalizeAuction im env l e = Inr l'"
  shows "auction_step (auctions l e0) (auctions l' e0)"
proof -
  from assms consider
      (timeout) "status (auctions l e) = INITIALIZED \<or> status (auctions l e) = FINALIZED"
        "l' = l\<lparr>auctions := (auctions l)(e := cancel (auctions l e))\<rparr>"
    | (check) "status (auctions l e) = INITIALIZED" "finalizeAuction' im env l e = Inr l'"
    | (nothing) "l' = l"
    by (auto simp: finalizeAuction_def bind_eq_Inr Let_def split: if_splits)
  then show ?thesis
  proof cases
    case timeout
    then show ?thesis by (auto intro: as_same as_timeout)
  next
    case check
    then show ?thesis using finalizeAuction'_step by blast
  next
    case nothing
    then show ?thesis by (simp add: as_same)
  qed
qed

lemma transferPremium_step:
  "transferPremium im env l e = Inr (l', p) \<Longrightarrow> auction_step (auctions l e0) (auctions l' e0)"
  by (auto simp: transferPremium_def bind_eq_Inr Let_def lastPrice64x64'_def split: if_splits
      intro: as_same as_premium)

lemma processAuction_step:
  "processAuction im env l e = Inr l' \<Longrightarrow> auction_step (auctions l e0) (auctions l' e0)"
  by (auto simp: processAuction_def bind_eq_Inr Let_def split: if_splits
      intro: as_same as_process)

lemma exec_step:
  assumes "exec im env l c = Inr l'"
  shows "auction_step (auctions l e0) (auctions l' e0)"
proof (cases c)
  case (Initialize ia)
  then show ?thesis using assms initialize_step by simp
next
  case (SetAuctionPrices e mx mn)
  then show ?thesis using assms setAuctionPrices_step by simp
next
  case (AddLimitOrder e p s)
  then show ?thesis using assms addLimitOrder_step by simp
next
  case (AddMarketOrder e s m)
  then show ?thesis using assms addMarketOrder_step by simp
next
  case (CancelLimitOrder e i)
  then show ?thesis using assms cancelLimitOrder_step by simp
next
  case (Withdraw e)
  then obtain refund fill where "withdraw im env l e = Inr (l', refund, fill)"
    using assms by (auto simp: bind_eq_Inr)
  then show ?thesis using withdraw_auctions by (simp add: as_same)
next
  case (FinalizeAuction e)
  then show ?thesis using assms finalizeAuction_step by simp
next
  case (TransferPremium e)
  then obtain p where "transferPremium im env l e = Inr (l', p)"
    using assms by (auto simp: bind_eq_Inr)
  then show ?thesis using transferPremium_step by simp
next
  case (ProcessAuction e)
  then show ?thesis using assms processAuction_step by simp
qed


lemma steps_invariant:
  assumes "steps im l l'" and "P (auctions l e)"
    and "\<And>a a'. auction_step a a' \<Longrightarrow> P a \<Longrightarrow> P a'"
  shows "P (auctions l' e)"
  using assms(1)
proof (induction rule: steps.induct)
  case steps_refl
  then show ?case using assms(2) .
next
  case (steps_step l1 env c l2)
  from exec_step [OF steps_step.hyps(2), of e] steps_step.IH assms(3)
  show ?case by blast
qed

lemma auction_step_sold_le:
  "auction_step a a' \<Longrightarrow> totalContractsSold a \<le> totalContracts a \<Longrightarrow>
   totalContractsSold a' \<le> totalContracts a'"
  by (induction rule: auction_step.induct) (auto simp: cancel_def)





section \<open>The order-book invariant is kept by every call\<close>

lemma place_ids: "set (map id' (place d xs)) = insert (id' d) (set (map id' xs))"
  by (induction xs) auto

lemma place_set: "set (place d xs) = insert d (set xs)"
  by (induction xs) auto

lemma place_distinct:
  "distinct (map id' xs) \<Longrightarrow> id' d \<notin> set (map id' xs) \<Longrightarrow> distinct (map id' (place d xs))"
proof (induction xs)
  case Nil
  then show ?case by simp
next
  case (Cons x xs)
  then have "id' x \<notin> set (map id' (place d xs))" unfolding place_ids by auto
  with Cons show ?case by auto
qed

lemma wf_book_insert:
  assumes "wf_book ob"
  shows "wf_book (fst (insert' ob p s b))"
proof -
  let ?d = "\<lparr>id' = lastId ob + 1, price64x64 = p, size' = s, buyer = b\<rparr>"
  have bound: "\<And>x. x \<in> set (nodes ob) \<Longrightarrow> 0 < id' x \<and> id' x \<le> lastId ob"
    using assms by (simp add: wf_book_def list_all_iff)
  then have fresh: "id' ?d \<notin> set (map id' (nodes ob))" by fastforce
  have "distinct (map id' (place ?d (nodes ob)))"
    using assms fresh by (intro place_distinct) (simp_all add: wf_book_def)
  moreover have "\<And>x. x \<in> set (place ?d (nodes ob)) \<Longrightarrow> 0 < id' x \<and> id' x \<le> lastId ob + 1"
    unfolding place_set using bound by fastforce
  ultimately show ?thesis
    by (simp add: wf_book_def insert'_def Let_def list_all_iff)
qed

lemma wf_book_filter:
  "wf_book ob \<Longrightarrow> wf_book (ob\<lparr>nodes := filter P (nodes ob)\<rparr>)"
  by (simp add: wf_book_def list_all_iff distinct_map_filter)

lemma wf_book_remove: "wf_book ob \<Longrightarrow> wf_book (fst (remove ob i))"
  by (simp add: remove_def wf_book_filter)

lemma headId_nodes: "headId (nodes ob) = head ob"
  by (simp add: headId_def head_def)

lemma previewWithdraw_list:
  assumes "distinct (map id' (nodes (orderbooks l e)))"
  shows "previewWithdraw l now isPreview e b =
     bind (clearingPrice64x64 (auctions l e) now) (\<lambda>c.
     bind (withdrawList b c (totalContracts (auctions l e)) (nodes (orderbooks l e)) 0 0 0)
       (\<lambda>(r, f). Inr (r, f,
          if isPreview then orderbooks l e
          else (orderbooks l e)\<lparr>nodes := filter (\<lambda>d. buyer d \<noteq> b) (nodes (orderbooks l e))\<rparr>)))"
proof (cases isPreview)
  case True
  have "withdrawLoop (length (nodes (orderbooks l e))) True b c tc (orderbooks l e)
          (headId (nodes (orderbooks l e))) 0 0 0 =
        bind (withdrawList b c tc (nodes (orderbooks l e)) 0 0 0)
          (\<lambda>(r, f). Inr (r, f, orderbooks l e))" for c tc
    using withdrawLoop_list_preview [of "orderbooks l e" "[]" "nodes (orderbooks l e)"] assms
    by simp
  then show ?thesis using True
    by (simp add: previewWithdraw_def Let_def length'_def headId_nodes [symmetric])
next
  case False
  have "withdrawLoop (length (nodes (orderbooks l e))) False b c tc (orderbooks l e)
          (headId (nodes (orderbooks l e))) 0 0 0 =
        bind (withdrawList b c tc (nodes (orderbooks l e)) 0 0 0)
          (\<lambda>(r, f). Inr (r, f,
             (orderbooks l e)\<lparr>nodes := filter (\<lambda>d. buyer d \<noteq> b) (nodes (orderbooks l e))\<rparr>))"
    for c tc
    using withdrawLoop_list_remove [of "orderbooks l e" "[]" "nodes (orderbooks l e)"] assms
    by simp
  then show ?thesis using False
    by (simp add: previewWithdraw_def Let_def length'_def headId_nodes [symmetric])
qed

lemma previewWithdraw_wf:
  assumes "wf_book (orderbooks l e)"
    and "previewWithdraw l now isPreview e b = Inr (r, f, ob')"
  shows "wf_book ob'"
proof -
  have d: "distinct (map id' (nodes (orderbooks l e)))" using assms(1) by (simp add: wf_book_def)
  from assms(2) have "ob' = orderbooks l e \<or>
      ob' = (orderbooks l e)\<lparr>nodes := filter (\<lambda>d. buyer d \<noteq> b) (nodes (orderbooks l e))\<rparr>"
    unfolding previewWithdraw_list [OF d]
    by (auto simp: bind_eq_Inr split: if_splits)
  then show ?thesis using assms(1) wf_book_filter by auto
qed

lemma finalizeAuction'_books:
  "finalizeAuction' im env l e = Inr l' \<Longrightarrow> orderbooks l' = orderbooks l"
  by (drule finalizeAuction'_frame) auto

lemma finalizeAuction'_epochs:
  "finalizeAuction' im env l e = Inr l' \<Longrightarrow> epochsByBuyer l' = epochsByBuyer l"
  by (drule finalizeAuction'_frame) auto

lemma addOrder_books:
  assumes "addOrder im env l e p s = Inr l'"
  shows "orderbooks l' = (orderbooks l)(e := fst (insert' (orderbooks l e) p s (msg_sender env)))"
proof (cases "block_timestamp env \<ge> startTime (auctions l e)")
  case True
  then show ?thesis using assms
    by (auto simp: addOrder_def Let_def dest!: finalizeAuction'_books)
next
  case False
  then show ?thesis using assms by (auto simp: addOrder_def Let_def)
qed

lemma cancelLimitOrder_books:
  assumes "cancelLimitOrder im env l e i = Inr l'"
  shows "orderbooks l' = (orderbooks l)(e := fst (remove (orderbooks l e) i))"
proof (cases "block_timestamp env \<ge> startTime (auctions l e)")
  case True
  then show ?thesis using assms
    by (auto simp: cancelLimitOrder_def bind_eq_Inr Let_def split: if_splits
        dest!: finalizeAuction'_books)
next
  case False
  then show ?thesis using assms
    by (auto simp: cancelLimitOrder_def bind_eq_Inr Let_def split: if_splits)
qed

lemma withdraw_books:
  assumes "withdraw im env l e = Inr (l', refund, fill)"
  shows "\<exists>r f ob'. previewWithdraw l (block_timestamp env) False e (msg_sender env) = Inr (r, f, ob') \<and>
           orderbooks l' = (orderbooks l)(e := ob')"
  using assms
  by (auto simp: withdraw_def withdraw'_def bind_eq_Inr Let_def split: if_splits prod.splits)

lemma finalizeAuction_books:
  "finalizeAuction im env l e = Inr l' \<Longrightarrow> orderbooks l' = orderbooks l"
  by (auto simp: finalizeAuction_def bind_eq_Inr Let_def split: if_splits
      dest!: finalizeAuction'_books)

lemma exec_books_ok:
  assumes "exec im env l c = Inr l'" and "books_ok l"
  shows "books_ok l'"
proof (cases c)
  case (Initialize ia)
  then show ?thesis using assms
    by (auto simp: initialize_def bind_eq_Inr Let_def books_ok_def split: if_splits)
next
  case (SetAuctionPrices e mx mn)
  then show ?thesis using assms
    by (auto simp: setAuctionPrices_def bind_eq_Inr Let_def books_ok_def split: if_splits)
next
  case (AddLimitOrder e p s)
  then have "addOrder im env l e p s = Inr l'" using assms(1)
    by (auto simp: addLimitOrder_def bind_eq_Inr split: if_splits)
  from addOrder_books [OF this] show ?thesis using assms(2)
    by (simp add: books_ok_def wf_book_insert)
next
  case (AddMarketOrder e s m)
  then obtain p where "addOrder im env l e p s = Inr l'" using assms(1)
    by (auto simp: addMarketOrder_def bind_eq_Inr split: if_splits prod.splits)
  from addOrder_books [OF this] show ?thesis using assms(2)
    by (simp add: books_ok_def wf_book_insert)
next
  case (CancelLimitOrder e i)
  then have "cancelLimitOrder im env l e i = Inr l'" using assms(1) by simp
  from cancelLimitOrder_books [OF this] show ?thesis using assms(2)
    by (simp add: books_ok_def wf_book_remove)
next
  case (Withdraw e)
  then obtain refund fill where "withdraw im env l e = Inr (l', refund, fill)"
    using assms(1) by (auto simp: bind_eq_Inr)
  from withdraw_books [OF this] obtain r f ob' where
    p: "previewWithdraw l (block_timestamp env) False e (msg_sender env) = Inr (r, f, ob')" and
    b: "orderbooks l' = (orderbooks l)(e := ob')" by blast
  have "wf_book ob'" using previewWithdraw_wf [OF _ p] assms(2) by (simp add: books_ok_def)
  then show ?thesis using assms(2) b by (simp add: books_ok_def)
next
  case (FinalizeAuction e)
  then show ?thesis using assms finalizeAuction_books by (auto simp: books_ok_def)
next
  case (TransferPremium e)
  then show ?thesis using assms
    by (auto simp: transferPremium_def bind_eq_Inr Let_def books_ok_def split: if_splits)
next
  case (ProcessAuction e)
  then show ?thesis using assms
    by (auto simp: processAuction_def bind_eq_Inr Let_def books_ok_def split: if_splits)
qed

lemma steps_books_ok: "steps im l l' \<Longrightarrow> books_ok l \<Longrightarrow> books_ok l'"
  by (induction rule: steps.induct) (auto intro: exec_books_ok)

lemma reachable_wf_book: "reachable im l \<Longrightarrow> wf_book (orderbooks l e)"
proof -
  assume "reachable im l"
  then obtain m where s: "steps im (emptyLayout m) l" by (auto simp: reachable_def)
  have "books_ok (emptyLayout m)" by (simp add: books_ok_def emptyLayout_def wf_book_def)
  with s have "books_ok l" by (rule steps_books_ok)
  then show ?thesis by (simp add: books_ok_def)
qed

section \<open>Runs\<close>

lemma steps_trans: "steps im l1 l2 \<Longrightarrow> steps im l0 l1 \<Longrightarrow> steps im l0 l2"
  by (induction rule: steps.induct) (auto intro: steps_step)

lemma run_steps: "run im l cs = Inr l' \<Longrightarrow> steps im l l'"
proof (induction cs arbitrary: l)
  case Nil
  then show ?case by (simp add: steps_refl)
next
  case (Cons a cs)
  obtain env c where a: "a = (env, c)" by (cases a)
  with Cons.prems obtain l1 where e: "exec im env l c = Inr l1" and r: "run im l1 cs = Inr l'"
    by (auto simp: bind_eq_Inr)
  have "steps im l l1" using steps_step [OF steps_refl e] .
  with Cons.IH [OF r] show ?case by (rule steps_trans)
qed

lemma run_reachable: "run im (emptyLayout m) cs = Inr l \<Longrightarrow> reachable im l"
  unfolding reachable_def by (blast dest: run_steps)

section \<open>The order-processing step on a well-formed book\<close>

lemma acceptable_totalContracts [simp]:
  "acceptable (a\<lparr>totalContracts := tc\<rparr>) now = acceptable a now"
  by (simp add: acceptable_def fun_eq_iff)

lemma processList_totalContracts [simp]:
  "processList (a\<lparr>totalContracts := x\<rparr>) now tc ds sold lp = processList a now tc ds sold lp"
  by (induction ds arbitrary: sold lp) (simp_all split: sum.splits)

lemma sizes_simps [simp]:
  "sizes [] = 0" "sizes (d # ds) = size' d + sizes ds" "sizes (xs @ ys) = sizes xs + sizes ys"
  by (simp_all add: sizes_def)

lemma processList_spec:
  assumes "processList a now tc ds sold lp = Inr (filled, lp', sold')"
  shows "if filled
         then (\<exists>pre d suf. ds = pre @ d # suf \<and> list_all (acceptable a now) (pre @ [d]) \<and>
                 (pre \<noteq> [] \<longrightarrow> sold + sizes pre < tc) \<and> tc \<le> sold + sizes pre + size' d \<and>
                 lp' = price64x64 d \<and> sold' = tc)
         else (\<exists>pre suf. ds = pre @ suf \<and> list_all (acceptable a now) pre \<and>
                 (suf = [] \<or> \<not> acceptable a now (hd suf)) \<and>
                 (pre \<noteq> [] \<longrightarrow> sold + sizes pre < tc) \<and>
                 lp' = (if pre = [] then lp else price64x64 (last pre)) \<and>
                 sold' = sold + sizes pre)"
  using assms
proof (induction ds arbitrary: sold lp)
  case Nil
  then show ?case by simp
next
  case (Cons d ds)
  from Cons.prems obtain c where c: "clearingPrice64x64 a now = Inr c"
    by (cases "clearingPrice64x64 a now") simp_all
  show ?case
  proof (cases "price64x64 d < c")
    case True
    then have r: "filled = False" "lp' = lp" "sold' = sold" using Cons.prems c by simp_all
    have "\<not> acceptable a now d" using True c by (simp add: acceptable_def)
    then have "d # ds = [] @ (d # ds) \<and> list_all (acceptable a now) [] \<and>
        (d # ds = [] \<or> \<not> acceptable a now (hd (d # ds))) \<and>
        (([]::Data list) \<noteq> [] \<longrightarrow> sold + sizes [] < tc) \<and>
        lp' = (if ([]::Data list) = [] then lp else price64x64 (last [])) \<and>
        sold' = sold + sizes []"
      using r by simp
    then show ?thesis using r(1) by (simp only: if_False) blast
  next
    case False
    then have acc: "acceptable a now d" using c by (simp add: acceptable_def)
    from Cons.prems c False have ok: "sold + size' d \<le> MAX_UINT256"
      by (auto simp: add256_def split: if_splits)
    then have add: "add256 sold (size' d) = Inr (sold + size' d)" by (simp add: add256_def)
    show ?thesis
    proof (cases "tc \<le> sold + size' d")
      case True
      then have r: "filled = True" "lp' = price64x64 d" "sold' = tc"
        using Cons.prems c False add by simp_all
      have "d # ds = [] @ d # ds \<and> list_all (acceptable a now) ([] @ [d]) \<and>
          (([]::Data list) \<noteq> [] \<longrightarrow> sold + sizes [] < tc) \<and> tc \<le> sold + sizes [] + size' d \<and>
          lp' = price64x64 d \<and> sold' = tc"
        using r acc True by simp
      then show ?thesis using r(1) by (simp only: if_True) blast
    next
      case nf: False
      then have rec: "processList a now tc ds (sold + size' d) (price64x64 d)
                       = Inr (filled, lp', sold')"
        using Cons.prems c False add by simp
      note IH = Cons.IH [OF rec]
      show ?thesis
      proof (cases filled)
        case True
        with IH obtain pre x suf where
          p: "ds = pre @ x # suf" "list_all (acceptable a now) (pre @ [x])"
             "pre \<noteq> [] \<longrightarrow> sold + size' d + sizes pre < tc"
             "tc \<le> sold + size' d + sizes pre + size' x"
             "lp' = price64x64 x" "sold' = tc"
          by auto
        have "d # ds = (d # pre) @ x # suf \<and> list_all (acceptable a now) ((d # pre) @ [x]) \<and>
            (d # pre \<noteq> [] \<longrightarrow> sold + sizes (d # pre) < tc) \<and>
            tc \<le> sold + sizes (d # pre) + size' x \<and> lp' = price64x64 x \<and> sold' = tc"
          using p acc nf by (cases "pre = []") (simp_all add: add.assoc)
        then show ?thesis using True by (simp only: if_True) blast
      next
        case nfl: False
        with IH obtain pre suf where
          p: "ds = pre @ suf" "list_all (acceptable a now) pre"
             "suf = [] \<or> \<not> acceptable a now (hd suf)"
             "pre \<noteq> [] \<longrightarrow> sold + size' d + sizes pre < tc"
             "lp' = (if pre = [] then price64x64 d else price64x64 (last pre))"
             "sold' = sold + size' d + sizes pre"
          by auto
        have "d # ds = (d # pre) @ suf \<and> list_all (acceptable a now) (d # pre) \<and>
            (suf = [] \<or> \<not> acceptable a now (hd suf)) \<and>
            (d # pre \<noteq> [] \<longrightarrow> sold + sizes (d # pre) < tc) \<and>
            lp' = (if d # pre = [] then lp else price64x64 (last (d # pre))) \<and>
            sold' = sold + sizes (d # pre)"
          using p acc nf by (cases "pre = []") (simp_all add: add.assoc)
        then show ?thesis using nfl by (simp only: if_False) blast
      qed
    qed
  qed
qed

lemma processList_sold:
  assumes "processList a now tc ds 0 lp = Inr (filled, lp', sold')"
  shows "sold' = min tc (sizes (accepted a now ds)) \<and>
         filled = (accepted a now ds \<noteq> [] \<and> tc \<le> sizes (accepted a now ds))"
proof (cases filled)
  case True
  with processList_spec [OF assms] obtain pre d suf where
    p: "ds = pre @ d # suf" "list_all (acceptable a now) (pre @ [d])"
       "tc \<le> sizes pre + size' d" "sold' = tc"
    by auto
  have "accepted a now ds = (pre @ [d]) @ takeWhile (acceptable a now) suf"
    unfolding accepted_def using p(1,2)
    by (simp add: takeWhile_append2 list_all_iff)
  then show ?thesis using p True by simp
next
  case False
  with processList_spec [OF assms] obtain pre suf where
    p: "ds = pre @ suf" "list_all (acceptable a now) pre"
       "suf = [] \<or> \<not> acceptable a now (hd suf)"
       "pre \<noteq> [] \<longrightarrow> sizes pre < tc" "sold' = sizes pre"
    by auto
  have "takeWhile (acceptable a now) suf = []" using p(3) by (cases suf) auto
  then have "accepted a now ds = pre"
    unfolding accepted_def using p(1,2)
    by (simp add: takeWhile_append2 list_all_iff)
  then show ?thesis using p False by (cases "pre = []") auto
qed

lemma processOrders_list:
  assumes "distinct (map id' (nodes (orderbooks l e)))"
    and "processOrders im env l e = Inr (l', filled)"
  shows "\<exists>tc lp sold.
           getTotalContracts im env (auctions l e) = Inr tc \<and>
           processList (auctions l e) (block_timestamp env) tc (nodes (orderbooks l e)) 0 0
             = Inr (filled, lp, sold) \<and>
           l' = l\<lparr>auctions := (auctions l)
                  (e := (auctions l e)\<lparr>totalContracts := tc, lastPrice64x64 := lp,
                                        totalContractsSold := sold\<rparr>)\<rparr>"
proof -
  let ?a1 = "if totalContracts (auctions l e) \<le> 0
             then (auctions l e)\<lparr>totalContracts := tc\<rparr> else auctions l e"
  from assms(2) obtain tc lp sold where
    tc: "getTotalContracts im env (auctions l e) = Inr tc" and
    loop: "processLoop (length' (orderbooks l e))
             (if totalContracts (auctions l e) \<le> 0 then (auctions l e)\<lparr>totalContracts := tc\<rparr>
              else auctions l e)
             (block_timestamp env) (orderbooks l e) tc (head (orderbooks l e)) 0 0
           = Inr (filled, lp, sold)" and
    l': "l' = l\<lparr>auctions := (auctions l)
               (e := (if totalContracts (auctions l e) \<le> 0
                      then (auctions l e)\<lparr>totalContracts := tc\<rparr> else auctions l e)
                     \<lparr>lastPrice64x64 := lp, totalContractsSold := sold\<rparr>)\<rparr>"
    by (auto simp: processOrders_def Let_def bind_eq_Inr split: prod.splits)
  have fz: "totalContracts (auctions l e) = 0 \<or> tc = totalContracts (auctions l e)"
    using tc by (rule getTotalContracts_frozen)
  have a1: "(if totalContracts (auctions l e) \<le> 0
             then (auctions l e)\<lparr>totalContracts := tc\<rparr> else auctions l e)
            = (auctions l e)\<lparr>totalContracts := tc\<rparr>"
    using fz by auto
  have "processLoop (length (nodes (orderbooks l e))) ((auctions l e)\<lparr>totalContracts := tc\<rparr>)
          (block_timestamp env) (orderbooks l e) tc (headId (nodes (orderbooks l e))) 0 0
        = processList ((auctions l e)\<lparr>totalContracts := tc\<rparr>) (block_timestamp env) tc
            (nodes (orderbooks l e)) 0 0"
    using processLoop_list [of "orderbooks l e" "[]" "nodes (orderbooks l e)"] assms(1) by simp
  with loop have "processList (auctions l e) (block_timestamp env) tc (nodes (orderbooks l e)) 0 0
        = Inr (filled, lp, sold)"
    unfolding a1 by (simp add: length'_def headId_nodes)
  moreover have "l' = l\<lparr>auctions := (auctions l)
                  (e := (auctions l e)\<lparr>totalContracts := tc, lastPrice64x64 := lp,
                                        totalContractsSold := sold\<rparr>)\<rparr>"
    using l' unfolding a1 by simp
  ultimately show ?thesis using tc by blast
qed
section \<open>The example runs\<close>

lemmas eval_defs =
  initialize_def setAuctionPrices_def addLimitOrder_def addMarketOrder_def
  cancelLimitOrder_def finalizeAuction_def transferPremium_def processAuction_def
  withdraw_def withdraw'_def previewWithdraw_def getExerciseAmount_def
  addOrder_def finalizeAuction'_def processOrders_def getTotalContracts_def
  validateLimitOrder_def validateMarketOrder_def limitOrdersAllowed_def
  marketOrdersAllowed_def auctionHasStarted_def auctionHasNotEnded_def onlyVault_def
  clearingPrice64x64_def priceCurve64x64_def lastPrice64x64'_def cancel_def
  withdrawStep_def withdrawOrder_def
  insert'_def remove_def getOrderById_def getNextOrder_def head_def length'_def zeroData_def
  fromCollateralToContracts_def mulu_def divu_def sub64_def mul64_def in_int128_def
  add256_def sub256_def MAX_UINT256_def MAX_64x64_def MIN_64x64_def
  emptyLayout_def zeroAuction_def exIm_def exEnv_def Let_def
  layoutOf_def oneCalls_def openCalls_def ia0_def buyerEnv_def

lemma exOpen_run: "run exIm (emptyLayout 1) openCalls = Inr exOpen"
  by (simp add: exOpen_def eval_defs)

lemma exOne_run: "run exIm (emptyLayout 1) oneCalls = Inr exOne"
  by (simp add: exOne_def eval_defs)

lemma exTwo_run:
  "run exIm (emptyLayout 1) (oneCalls @ [(buyerEnv 7 1332000, AddLimitOrder 0 (2 * 2 ^ 64) 2)])
     = Inr exTwo"
  by (simp add: exTwo_def eval_defs)

lemma exSold_run:
  "run exIm (emptyLayout 1) (oneCalls @ [(buyerEnv 8 1332000, AddLimitOrder 0 (2 * 2 ^ 64) 7)])
     = Inr exSold"
  by (simp add: exSold_def eval_defs)

lemma exEarly_run:
  "run exIm (emptyLayout 1) (openCalls @ [(buyerEnv 7 1000000, AddLimitOrder 0 (2 * 2 ^ 64) 10)])
     = Inr exEarly"
  by (simp add: exEarly_def eval_defs)

lemma exTimedOut_run:
  "run exIm (emptyLayout 1) (openCalls @ [(buyerEnv 9 1339201, FinalizeAuction 0)])
     = Inr exTimedOut"
  by (simp add: exTimedOut_def eval_defs)

lemma exOne_values:
  "status (auctions exOne 0) = INITIALIZED" "totalContracts (auctions exOne 0) = 10"
  "totalContractsSold (auctions exOne 0) = 5"
  "nodes (orderbooks exOne 0) = [\<lparr>id' = 1, price64x64 = 2 * 2 ^ 64, size' = 5, buyer = 7\<rparr>]"
  by (simp_all add: exOne_def eval_defs)

lemma exSold_values:
  "status (auctions exSold 0) = FINALIZED" "totalContracts (auctions exSold 0) = 10"
  "totalContractsSold (auctions exSold 0) = 10" "lastPrice64x64 (auctions exSold 0) = 2 * 2 ^ 64"
  "totalPremiums (auctions exSold 0) = 0"
  "nodes (orderbooks exSold 0) =
     [\<lparr>id' = 1, price64x64 = 2 * 2 ^ 64, size' = 5, buyer = 7\<rparr>,
      \<lparr>id' = 2, price64x64 = 2 * 2 ^ 64, size' = 7, buyer = 8\<rparr>]"
  by (simp_all add: exSold_def eval_defs)

lemma exTimedOut_values:
  "status (auctions exTimedOut 0) = FINALIZED" "totalContracts (auctions exTimedOut 0) = 10"
  "totalContractsSold (auctions exTimedOut 0) = 0" "lastPrice64x64 (auctions exTimedOut 0) = 0"
  "totalPremiums (auctions exTimedOut 0) = 0"
  by (simp_all add: exTimedOut_def eval_defs)

lemma exEarly_values:
  "status (auctions exEarly 0) = INITIALIZED" "totalContracts (auctions exEarly 0) = 0"
  "totalContractsSold (auctions exEarly 0) = 0" "lastPrice64x64 (auctions exEarly 0) = 0"
  "nodes (orderbooks exEarly 0) = [\<lparr>id' = 1, price64x64 = 2 * 2 ^ 64, size' = 10, buyer = 7\<rparr>]"
  by (simp_all add: exEarly_def eval_defs)
lemma exBehind_run: "run exIm (emptyLayout 1) behindCalls = Inr exBehind"
  by (simp add: exBehind_def behindCalls_def eval_defs)

lemma exBehind_values:
  "status (auctions exBehind 0) = PROCESSED" "totalContracts (auctions exBehind 0) = 10"
  "totalContractsSold (auctions exBehind 0) = 10" "totalPremiums (auctions exBehind 0) = 20"
  "lastPrice64x64 (auctions exBehind 0) = 2 * 2 ^ 64"
  by (simp_all add: exBehind_def behindCalls_def eval_defs)

section \<open>Contracts sold: \<open>_processOrders\<close>\<close>

text \<open>
  Claim C3, first as it fails. It says that \<open>totalContractsSold\<close> never decreases
  across the operations that set it. In \<open>exOne\<close>, a reachable state, 5 contracts count as
  sold; buyer 7 cancels the bid and the order-processing step that \<open>cancelLimitOrder\<close>
  runs sets \<open>totalContractsSold\<close> to 0.
\<close>

theorem C3_sold_decreases_on_cancel:
  "reachable exIm exOne \<and> getTotalContractsSold exOne 0 = 5 \<and>
   cancelLimitOrder exIm (buyerEnv 7 1332000) exOne 0 1 = Inr exCancelled \<and>
   getTotalContractsSold exCancelled 0 = 0"
proof -
  have "reachable exIm exOne" using exOne_run by (rule run_reachable)
  moreover have "getTotalContractsSold exOne 0 = 5"
    by (simp add: getTotalContractsSold_def exOne_values)
  moreover have "cancelLimitOrder exIm (buyerEnv 7 1332000) exOne 0 1 = Inr exCancelled"
    by (simp add: exCancelled_def exOne_def eval_defs)
  moreover have "getTotalContractsSold exCancelled 0 = 0"
    by (simp add: getTotalContractsSold_def exCancelled_def eval_defs)
  ultimately show ?thesis by simp
qed

text \<open>
  Claim C3, amended. In every reachable state of the auction contract and for every
  epoch, \<open>totalContractsSold \<le> totalContracts\<close>. \<open>totalContractsSold\<close> is not monotone:
  each run of the order-processing step recomputes it from the book as it stands, as the
  smaller of \<open>totalContracts\<close> and the total size of the leading orders priced at or above
  the clearing price.
\<close>

theorem C3_sold_bounded_and_recomputed:
  "(reachable im l \<longrightarrow> totalContractsSold (auctions l e) \<le> totalContracts (auctions l e)) \<and>
   (reachable im l \<and> processOrders im env l e = Inr (l', filled) \<longrightarrow>
      totalContractsSold (auctions l' e) =
        min (totalContracts (auctions l' e))
            (sizes (accepted (auctions l e) (block_timestamp env) (nodes (orderbooks l e)))))"
proof (intro conjI impI)
  assume "reachable im l"
  then obtain m where s: "steps im (emptyLayout m) l"
    by (auto simp: reachable_def)
  have "totalContractsSold (auctions (emptyLayout m) e) \<le> totalContracts (auctions (emptyLayout m) e)"
    by (simp add: emptyLayout_def zeroAuction_def)
  with s show "totalContractsSold (auctions l e) \<le> totalContracts (auctions l e)"
    by (rule steps_invariant) (rule auction_step_sold_le)
next
  assume a: "reachable im l \<and> processOrders im env l e = Inr (l', filled)"
  then have "distinct (map id' (nodes (orderbooks l e)))"
    using reachable_wf_book [of im l e] by (simp add: wf_book_def)
  from processOrders_list [OF this] a obtain tc lp sold where
    pl: "processList (auctions l e) (block_timestamp env) tc (nodes (orderbooks l e)) 0 0
           = Inr (filled, lp, sold)" and
    l': "l' = l\<lparr>auctions := (auctions l)
                  (e := (auctions l e)\<lparr>totalContracts := tc, lastPrice64x64 := lp,
                                        totalContractsSold := sold\<rparr>)\<rparr>"
    by blast
  from processList_sold [OF pl] l'
  show "totalContractsSold (auctions l' e) =
        min (totalContracts (auctions l' e))
            (sizes (accepted (auctions l e) (block_timestamp env) (nodes (orderbooks l e))))"
    by simp
qed

theorem C3_sold_bounded_and_recomputed_witness:
  "reachable exIm exOne \<and>
   processOrders exIm (buyerEnv 7 1332000) exOne 0 = Inr (exOne, False) \<and>
   totalContractsSold (auctions exOne 0) \<le> totalContracts (auctions exOne 0) \<and>
   totalContractsSold (auctions exOne 0) = 5 \<and>
   min (totalContracts (auctions exOne 0))
       (sizes (accepted (auctions exOne 0) 1332000 (nodes (orderbooks exOne 0)))) = 5"
proof -
  have r: "reachable exIm exOne" using exOne_run by (rule run_reachable)
  have p: "processOrders exIm (buyerEnv 7 1332000) exOne 0 = Inr (exOne, False)"
    by (simp add: exOne_def eval_defs)
  have t: "block_timestamp (buyerEnv 7 1332000) = 1332000" by (simp add: buyerEnv_def)
  show ?thesis
    using C3_sold_bounded_and_recomputed [of exIm exOne 0 "buyerEnv 7 1332000" exOne False] r p
    by (simp add: t exOne_values(3))
qed

section \<open>The premium: \<open>transferPremium\<close>\<close>









text \<open>
  At the level of the Auction contract alone the guard \<open>totalPremiums \<le> 0\<close> does not tell
  a premium of 0 that was transferred from one that was not: on \<open>exTimedOut\<close>, finalized
  with nothing sold, the call of the vault's address succeeds, transfers 0 and could be
  repeated. The vault never repeats it, as the theorem above shows.
\<close>

lemma transferPremium_of_zero:
  "reachable exIm exTimedOut \<and> status (auctions exTimedOut 0) = FINALIZED \<and>
   transferPremium exIm exEnv exTimedOut 0 = Inr (exTimedOut, 0)"
proof -
  have r: "reachable exIm exTimedOut" using exTimedOut_run by (rule run_reachable)
  have t: "transferPremium exIm exEnv exTimedOut 0 = Inr (exTimedOut, 0)"
    by (simp add: exTimedOut_def eval_defs)
  with r show ?thesis by (simp add: exTimedOut_values)
qed

section \<open>The epochs of a buyer: \<open>cancelLimitOrder\<close>\<close>

text \<open>
  Claim C10. After a successful \<open>cancelLimitOrder(epoch, id)\<close> the epoch is not in the
  caller's epoch set, whatever else the book of the epoch holds: the book loses the
  cancelled order only, so that the other orders of the caller stay in it.
\<close>

theorem C10_cancel_removes_epoch:
  assumes "cancelLimitOrder im env l e i = Inr l'"
  shows "e \<notin> getEpochsByBuyer l' (msg_sender env) \<and>
         orderbooks l' e = fst (remove (orderbooks l e) i)"
proof -
  define d where "d = getOrderById (orderbooks l e) i"
  define l2 where "l2 = l\<lparr>orderbooks := (orderbooks l)(e := fst (remove (orderbooks l e) i)),
                 epochsByBuyer := (epochsByBuyer l)
                   (buyer d := epochsByBuyer l (buyer d) - {e})\<rparr>"
  from assms have b: "buyer d = msg_sender env"
    by (auto simp: cancelLimitOrder_def bind_eq_Inr Let_def d_def)
  have "epochsByBuyer l' = epochsByBuyer l2"
  proof (cases "block_timestamp env \<ge> startTime (auctions l e)")
    case True
    then have "finalizeAuction' im env l2 e = Inr l'"
      using assms
      by (auto simp: cancelLimitOrder_def bind_eq_Inr Let_def l2_def d_def split: if_splits)
    then show ?thesis by (rule finalizeAuction'_epochs)
  next
    case False
    then have "l' = l2"
      using assms
      by (auto simp: cancelLimitOrder_def bind_eq_Inr Let_def l2_def d_def split: if_splits)
    then show ?thesis by simp
  qed
  then have "e \<notin> getEpochsByBuyer l' (msg_sender env)"
    using b by (simp add: getEpochsByBuyer_def l2_def)
  moreover have "orderbooks l' e = fst (remove (orderbooks l e) i)"
    using cancelLimitOrder_books [OF assms] by simp
  ultimately show ?thesis by simp
qed

theorem C10_cancel_removes_epoch_witness:
  "cancelLimitOrder exIm (buyerEnv 7 1332000) exTwo 0 1 = Inr exKept \<and>
   getEpochsByBuyer exTwo 7 = {0} \<and>
   0 \<notin> getEpochsByBuyer exKept (msg_sender (buyerEnv 7 1332000)) \<and>
   nodes (orderbooks exKept 0) = [\<lparr>id' = 2, price64x64 = 2 * 2 ^ 64, size' = 2, buyer = 7\<rparr>]"
proof -
  have c: "cancelLimitOrder exIm (buyerEnv 7 1332000) exTwo 0 1 = Inr exKept"
    by (simp add: exKept_def exTwo_def eval_defs)
  have e: "getEpochsByBuyer exTwo 7 = {0}"
    by (simp add: getEpochsByBuyer_def exTwo_def eval_defs)
  have n: "nodes (orderbooks exKept 0) = [\<lparr>id' = 2, price64x64 = 2 * 2 ^ 64, size' = 2, buyer = 7\<rparr>]"
    by (simp add: exKept_def exTwo_def eval_defs)
  show ?thesis
    using C10_cancel_removes_epoch [OF c] c e n by simp
qed

section \<open>Withdrawing conserves value: \<open>_previewWithdraw\<close>\<close>

lemma mulu_times64: "mulu x y = Inr v \<Longrightarrow> v = times64 x y"
  by (auto simp: mulu_def times64_def split: if_splits)

lemma times64_zero [simp]: "times64 x 0 = 0"
  by (simp add: times64_def)

lemma withdrawOrder_conserve:
  assumes "withdrawOrder c tc d refund fill sold = Inr (r, f)"
  shows "r + times64 c (filledAmount c tc d sold) = refund + times64 (price64x64 d) (size' d) \<and>
         f = fill + filledAmount c tc d sold"
proof (cases "c < MAX_64x64 \<and> price64x64 d \<ge> c")
  case False
  then have "\<exists>paid. mulu (price64x64 d) (size' d) = Inr paid \<and> r = refund + paid \<and> f = fill"
    using assms by (auto simp: withdrawOrder_def bind_eq_Inr add256_eq_Inr)
  then show ?thesis using False by (auto simp: filledAmount_def dest: mulu_times64)
next
  case True
  show ?thesis
  proof (cases "tc \<le> sold + size' d")
    case full: True
    from assms True full obtain paid cost where
      "mulu (price64x64 d) (size' d) = Inr paid" "sold \<le> tc" "mulu c (tc - sold) = Inr cost"
      "f = fill + (tc - sold)" "cost \<le> paid" "r = refund + (paid - cost)"
      by (auto simp: withdrawOrder_def bind_eq_Inr add256_eq_Inr sub256_eq_Inr
          split: if_splits)
    moreover have "filledAmount c tc d sold = tc - sold"
      using True full by (auto simp: filledAmount_def)
    ultimately show ?thesis by (auto dest!: mulu_times64)
  next
    case part: False
    from assms True part obtain paid cost where
      "mulu (price64x64 d) (size' d) = Inr paid" "mulu c (size' d) = Inr cost"
      "f = fill + size' d" "cost \<le> paid" "r = refund + (paid - cost)"
      by (auto simp: withdrawOrder_def bind_eq_Inr add256_eq_Inr sub256_eq_Inr
          split: if_splits)
    moreover have "filledAmount c tc d sold = size' d"
      using True part by (auto simp: filledAmount_def)
    ultimately show ?thesis by (auto dest!: mulu_times64)
  qed
qed

lemma withdrawList_conserve:
  "withdrawList b c tc ds refund fill sold = Inr (r, f) \<Longrightarrow>
   r + costSum c tc b ds sold = refund + paidSum b ds \<and> f = fill + fillSum c tc b ds sold"
proof (induction ds arbitrary: refund fill sold)
  case Nil
  then show ?case by simp
next
  case (Cons d ds)
  from Cons.prems obtain r1 f1 where
    step: "(if buyer d = b then withdrawOrder c tc d refund fill sold else Inr (refund, fill))
             = Inr (r1, f1)" and
    ok: "sold + size' d \<le> MAX_UINT256" and
    rest: "withdrawList b c tc ds r1 f1 (sold + size' d) = Inr (r, f)"
    by (auto simp: add256_def split: sum.splits if_splits)
  note IH = Cons.IH [OF rest]
  show ?case
  proof (cases "buyer d = b")
    case True
    with step have "withdrawOrder c tc d refund fill sold = Inr (r1, f1)" by simp
    from withdrawOrder_conserve [OF this] IH True show ?thesis by simp
  next
    case False
    with step have "r1 = refund" "f1 = fill" by simp_all
    with IH False show ?thesis by simp
  qed
qed

text \<open>
  Whenever the traversal returns, it conserves value. In a reachable state let
  \<open>previewWithdraw\<close> (the traversal that \<open>withdraw\<close> and the preview share) return a
  refund and a fill for a buyer. With \<open>\<times>\<close> the 64.64 product rounded down, taken order by
  order over the orders of the buyer: the refund plus the sum of the costs is the sum of
  \<open>price \<times> size\<close>, where the cost of an order is \<open>clearingPrice \<times> min(size, remainder)\<close>
  when the order is filled and 0 when its price is below the clearing price or the
  auction was cancelled; the fill is the sum of the filled amounts. Hence the refund plus
  the fill at the clearing price is not more than what the buyer paid in.
\<close>

lemma previewWithdraw_conserves_value:
  assumes "reachable im l"
    and "previewWithdraw l now isPreview e b = Inr (refund, fill, ob')"
  shows "\<exists>c. clearingPrice64x64 (auctions l e) now = Inr c \<and>
           refund + costSum c (totalContracts (auctions l e)) b (nodes (orderbooks l e)) 0
             = paidSum b (nodes (orderbooks l e)) \<and>
           fill = fillSum c (totalContracts (auctions l e)) b (nodes (orderbooks l e)) 0 \<and>
           refund + costSum c (totalContracts (auctions l e)) b (nodes (orderbooks l e)) 0
             \<le> paidSum b (nodes (orderbooks l e))"
proof -
  have d: "distinct (map id' (nodes (orderbooks l e)))"
    using reachable_wf_book [OF assms(1), of e] by (simp add: wf_book_def)
  from assms(2) obtain c where
    c: "clearingPrice64x64 (auctions l e) now = Inr c" and
    w: "withdrawList b c (totalContracts (auctions l e)) (nodes (orderbooks l e)) 0 0 0
          = Inr (refund, fill)"
    unfolding previewWithdraw_list [OF d]
    by (auto simp: bind_eq_Inr)
  from withdrawList_conserve [OF w] c show ?thesis by simp
qed

lemma previewWithdraw_conserves_value_example:
  "reachable exIm exSold \<and>
   previewWithdraw exSold 1340000 True 0 8 = Inr (4, 5, orderbooks exSold 0) \<and>
   clearingPrice64x64 (auctions exSold 0) 1340000 = Inr (2 * 2 ^ 64) \<and>
   paidSum 8 (nodes (orderbooks exSold 0)) = 14 \<and>
   costSum (2 * 2 ^ 64) (totalContracts (auctions exSold 0)) 8 (nodes (orderbooks exSold 0)) 0 = 10 \<and>
   fillSum (2 * 2 ^ 64) (totalContracts (auctions exSold 0)) 8 (nodes (orderbooks exSold 0)) 0 = 5"
proof -
  have r: "reachable exIm exSold" using exSold_run by (rule run_reachable)
  have p: "previewWithdraw exSold 1340000 True 0 8 = Inr (4, 5, orderbooks exSold 0)"
    by (simp add: exSold_def eval_defs)
  have c: "clearingPrice64x64 (auctions exSold 0) 1340000 = Inr (2 * 2 ^ 64)"
    by (simp add: clearingPrice64x64_def lastPrice64x64'_def exSold_values)
  have s: "paidSum 8 (nodes (orderbooks exSold 0)) = 14"
    by (simp add: exSold_values times64_def)
  show ?thesis
    using previewWithdraw_conserves_value [OF r p] r p c s
    by (simp add: exSold_values times64_def filledAmount_def MAX_64x64_def)
qed
text \<open>
  Claim C1 says that for every epoch and every buyer the traversal gives a refund and a
  fill with \<open>refund + cost = price \<times> size\<close>. It does whenever it returns, by the lemma
  above, but it does not return for every buyer. In \<open>exBehind\<close>, a reachable state, three
  bids at price 2, for 5, 7 and 3 contracts, were placed before the auction opened; the
  first two fill the 10 contracts at the clearing price 2, and the auction has been
  processed. The bid of buyer 9 is priced at the clearing price and lies behind the fill:
  the sizes summed before it are 12, and \<open>totalContracts - totalContractsSold\<close> underflows.
  In this state the preview and the withdrawal of buyer 9 abort with a panic, whatever
  the time, where the claim gives the refund 6, all that buyer 9 paid; the preview of
  buyer 8 returns.
\<close>

theorem C1_withdraw_reverts_behind_fill:
  "reachable exIm exBehind \<and>
   status (auctions exBehind 0) = PROCESSED \<and>
   totalContracts (auctions exBehind 0) = 10 \<and>
   lastPrice64x64 (auctions exBehind 0) = 2 * 2 ^ 64 \<and>
   nodes (orderbooks exBehind 0) =
     [\<lparr>id' = 1, price64x64 = 2 * 2 ^ 64, size' = 5, buyer = 7\<rparr>,
      \<lparr>id' = 2, price64x64 = 2 * 2 ^ 64, size' = 7, buyer = 8\<rparr>,
      \<lparr>id' = 3, price64x64 = 2 * 2 ^ 64, size' = 3, buyer = 9\<rparr>] \<and>
   paidSum 9 (nodes (orderbooks exBehind 0)) = 6 \<and>
   costSum (2 * 2 ^ 64) 10 9 (nodes (orderbooks exBehind 0)) 0 = 0 \<and>
   (\<forall>now isPreview. previewWithdraw exBehind now isPreview 0 9 = Inl Panic) \<and>
   withdraw exIm (buyerEnv 9 1500000) exBehind 0 = Inl Panic \<and>
   previewWithdraw exBehind 1500000 True 0 8 = Inr (4, 5, orderbooks exBehind 0)"
proof -
  have r: "reachable exIm exBehind" using exBehind_run by (rule run_reachable)
  have n: "nodes (orderbooks exBehind 0) =
     [\<lparr>id' = 1, price64x64 = 2 * 2 ^ 64, size' = 5, buyer = 7\<rparr>,
      \<lparr>id' = 2, price64x64 = 2 * 2 ^ 64, size' = 7, buyer = 8\<rparr>,
      \<lparr>id' = 3, price64x64 = 2 * 2 ^ 64, size' = 3, buyer = 9\<rparr>]"
    by (simp add: exBehind_def behindCalls_def eval_defs)
  have s: "paidSum 9 (nodes (orderbooks exBehind 0)) = 6"
    "costSum (2 * 2 ^ 64) 10 9 (nodes (orderbooks exBehind 0)) 0 = 0"
    by (simp_all add: n times64_def filledAmount_def MAX_64x64_def)
  have p: "previewWithdraw exBehind now isPreview 0 9 = Inl Panic" for now isPreview
    by (simp add: exBehind_def behindCalls_def eval_defs)
  have w: "withdraw exIm (buyerEnv 9 1500000) exBehind 0 = Inl Panic"
    by (simp add: exBehind_def behindCalls_def eval_defs)
  have o: "previewWithdraw exBehind 1500000 True 0 8 = Inr (4, 5, orderbooks exBehind 0)"
    by (simp add: exBehind_def behindCalls_def eval_defs)
  show ?thesis using r n s p w o exBehind_values by blast
qed

section \<open>The finalize-check: \<open>_finalizeAuction\<close> and where it is run\<close>

lemma getTotalContracts_totalContracts:
  "getTotalContracts im env a = Inr tc \<Longrightarrow>
   getTotalContracts im env a =
     Inr (totalContracts (a\<lparr>totalContracts := tc, lastPrice64x64 := lp,
                            totalContractsSold := sold, status := st\<rparr>))"
  by simp

lemma finalizeAuction'_outcome:
  assumes "distinct (map id' (nodes (orderbooks l e)))"
    and "finalizeAuction' im env l e = Inr l'"
  shows "check_outcome im env (auctions l e) (nodes (orderbooks l e)) (auctions l' e)"
proof -
  let ?a = "auctions l e"
  let ?now = "block_timestamp env"
  from assms(2) obtain l1 filled where
    p: "processOrders im env l e = Inr (l1, filled)" and
    rx: "(if filled \<or> ?now > endTime (auctions l1 e)
           then Inr (l1\<lparr>auctions := (auctions l1)(e := (auctions l1 e)\<lparr>status := FINALIZED\<rparr>)\<rparr>)
           else Inr l1) = (Inr l' :: error + Layout)"
    by (auto simp: finalizeAuction'_def bind_eq_Inr split: prod.splits)
  have l': "l' = (if filled \<or> ?now > endTime (auctions l1 e)
               then l1\<lparr>auctions := (auctions l1)(e := (auctions l1 e)\<lparr>status := FINALIZED\<rparr>)\<rparr>
               else l1)"
    using rx by (auto split: if_splits)
  from processOrders_list [OF assms(1) p] obtain tc lp sold where
    tc: "getTotalContracts im env ?a = Inr tc" and
    pl: "processList ?a ?now tc (nodes (orderbooks l e)) 0 0 = Inr (filled, lp, sold)" and
    l1: "l1 = l\<lparr>auctions := (auctions l)
                  (e := ?a\<lparr>totalContracts := tc, lastPrice64x64 := lp,
                             totalContractsSold := sold\<rparr>)\<rparr>"
    by blast
  define st where "st = (if filled \<or> ?now > endTime ?a then FINALIZED else status ?a)"
  have a': "auctions l' e = ?a\<lparr>totalContracts := tc, lastPrice64x64 := lp,
                               totalContractsSold := sold, status := st\<rparr>"
    using l' l1 by (simp add: st_def)
  have f: "totalContracts (auctions l' e) = tc" "lastPrice64x64 (auctions l' e) = lp"
    "totalContractsSold (auctions l' e) = sold" "status (auctions l' e) = st"
    by (simp_all add: a')
  show ?thesis
  proof (cases filled)
    case True
    with processList_spec [OF pl] obtain pre d suf where
      "nodes (orderbooks l e) = pre @ d # suf" "list_all (acceptable ?a ?now) (pre @ [d])"
      "pre \<noteq> [] \<longrightarrow> sizes pre < tc" "tc \<le> sizes pre + size' d"
      "lp = price64x64 d" "sold = tc"
      by auto
    moreover have "st = FINALIZED" using True by (simp add: st_def)
    ultimately have "\<exists>pre d suf. nodes (orderbooks l e) = pre @ d # suf \<and>
           list_all (acceptable ?a ?now) (pre @ [d]) \<and>
           (pre \<noteq> [] \<longrightarrow> sizes pre < tc) \<and> tc \<le> sizes pre + size' d \<and>
           lp = price64x64 d \<and> sold = tc \<and> st = FINALIZED"
      by blast
    then show ?thesis
      unfolding check_outcome_def f using tc a' by blast
  next
    case False
    with processList_spec [OF pl] obtain pre suf where
      "nodes (orderbooks l e) = pre @ suf" "list_all (acceptable ?a ?now) pre"
      "suf = [] \<or> \<not> acceptable ?a ?now (hd suf)"
      "pre \<noteq> [] \<longrightarrow> sizes pre < tc"
      "lp = (if pre = [] then 0 else price64x64 (last pre))" "sold = sizes pre"
      by auto
    moreover have "st = (if endTime ?a < ?now then FINALIZED else status ?a)"
      using False by (simp add: st_def)
    ultimately have "\<exists>pre suf. nodes (orderbooks l e) = pre @ suf \<and>
           list_all (acceptable ?a ?now) pre \<and>
           (suf = [] \<or> \<not> acceptable ?a ?now (hd suf)) \<and>
           (pre \<noteq> [] \<longrightarrow> sizes pre < tc) \<and>
           lp = (if pre = [] then 0 else price64x64 (last pre)) \<and> sold = sizes pre \<and>
           st = (if endTime ?a < ?now then FINALIZED else status ?a)"
      by blast
    then show ?thesis
      unfolding check_outcome_def f using tc a' by blast
  qed
qed

lemma addOrder_outcome:
  assumes "wf_book (orderbooks l e)" and "addOrder im env l e p s = Inr l'"
  shows "if startTime (auctions l e) \<le> block_timestamp env
         then check_outcome im env (auctions l e) (nodes (orderbooks l' e)) (auctions l' e)
         else auctions l' e = auctions l e"
proof -
  define l2 where "l2 = l\<lparr>epochsByBuyer := (epochsByBuyer l)
                   (msg_sender env := insert e (epochsByBuyer l (msg_sender env))),
                 orderbooks := (orderbooks l)
                   (e := fst (insert' (orderbooks l e) p s (msg_sender env)))\<rparr>"
  have a2: "auctions l2 = auctions l" by (simp add: l2_def)
  have b2: "orderbooks l2 e = orderbooks l' e"
    using addOrder_books [OF assms(2)] by (simp add: l2_def)
  have "wf_book (orderbooks l2 e)" using assms(1) by (simp add: l2_def wf_book_insert)
  then have d: "distinct (map id' (nodes (orderbooks l2 e)))" by (simp add: wf_book_def)
  show ?thesis
  proof (cases "startTime (auctions l e) \<le> block_timestamp env")
    case True
    then have "finalizeAuction' im env l2 e = Inr l'"
      using assms(2) by (simp add: addOrder_def Let_def l2_def)
    from finalizeAuction'_outcome [OF d this] True show ?thesis by (simp add: a2 b2)
  next
    case False
    then have "l' = l2" using assms(2) by (simp add: addOrder_def Let_def l2_def)
    then show ?thesis using False by (simp add: a2)
  qed
qed

lemma cancelLimitOrder_outcome:
  assumes "wf_book (orderbooks l e)" and "cancelLimitOrder im env l e i = Inr l'"
  shows "if startTime (auctions l e) \<le> block_timestamp env
         then check_outcome im env (auctions l e) (nodes (orderbooks l' e)) (auctions l' e)
         else auctions l' e = auctions l e"
proof -
  define d where "d = getOrderById (orderbooks l e) i"
  define l2 where "l2 = l\<lparr>orderbooks := (orderbooks l)(e := fst (remove (orderbooks l e) i)),
                 epochsByBuyer := (epochsByBuyer l)
                   (buyer d := epochsByBuyer l (buyer d) - {e})\<rparr>"
  have a2: "auctions l2 = auctions l" by (simp add: l2_def)
  have b2: "orderbooks l2 e = orderbooks l' e"
    using cancelLimitOrder_books [OF assms(2)] by (simp add: l2_def)
  have "wf_book (orderbooks l2 e)" using assms(1) by (simp add: l2_def wf_book_remove)
  then have dd: "distinct (map id' (nodes (orderbooks l2 e)))" by (simp add: wf_book_def)
  show ?thesis
  proof (cases "startTime (auctions l e) \<le> block_timestamp env")
    case True
    then have "finalizeAuction' im env l2 e = Inr l'"
      using assms(2)
      by (auto simp: cancelLimitOrder_def bind_eq_Inr Let_def l2_def d_def split: if_splits)
    from finalizeAuction'_outcome [OF dd this] True show ?thesis by (simp add: a2 b2)
  next
    case False
    then have "l' = l2"
      using assms(2)
      by (auto simp: cancelLimitOrder_def bind_eq_Inr Let_def l2_def d_def split: if_splits)
    then show ?thesis using False by (simp add: a2)
  qed
qed

lemma finalizeAuction_outcome:
  assumes "wf_book (orderbooks l e)" and "finalizeAuction im env l e = Inr l'"
  shows "if endTime (auctions l e) + 86400 \<le> block_timestamp env \<and>
            (status (auctions l e) = INITIALIZED \<or> status (auctions l e) = FINALIZED)
         then auctions l' e = cancel (auctions l e)
         else if startTime (auctions l e) < block_timestamp env \<and>
                 status (auctions l e) = INITIALIZED
         then check_outcome im env (auctions l e) (nodes (orderbooks l' e)) (auctions l' e)
         else auctions l' e = auctions l e"
proof -
  have d: "distinct (map id' (nodes (orderbooks l e)))" using assms(1) by (simp add: wf_book_def)
  have b: "orderbooks l' = orderbooks l" using assms(2) by (rule finalizeAuction_books)
  let ?late = "endTime (auctions l e) + 86400 \<le> block_timestamp env \<and>
               (status (auctions l e) = INITIALIZED \<or> status (auctions l e) = FINALIZED)"
  let ?open = "startTime (auctions l e) < block_timestamp env \<and>
               status (auctions l e) = INITIALIZED"
  have ok: "add256 (endTime (auctions l e)) 86400 = Inr (endTime (auctions l e) + 86400)"
    using assms(2)
    by (cases "endTime (auctions l e) + 86400 \<le> MAX_UINT256")
       (simp_all add: finalizeAuction_def Let_def add256_def)
  have body:
    "(if ?late then Inr (l\<lparr>auctions := (auctions l)(e := cancel (auctions l e))\<rparr>)
      else if ?open then finalizeAuction' im env l e else Inr l) = Inr l'"
    using assms(2) by (simp add: finalizeAuction_def Let_def ok)
  show ?thesis
  proof (cases ?late)
    case True
    with body have "l' = l\<lparr>auctions := (auctions l)(e := cancel (auctions l e))\<rparr>"
      by auto
    then show ?thesis using True by simp
  next
    case late: False
    show ?thesis
    proof (cases ?open)
      case True
      with body late have "finalizeAuction' im env l e = Inr l'"
        by auto
      from finalizeAuction'_outcome [OF d this] late True show ?thesis
        by (simp add: b)
    next
      case False
      with body late have "l' = l" by auto
      then show ?thesis using late False by auto
    qed
  qed
qed

text \<open>
  Claim C6, first as it fails. It says that the finalize-check is run after every order
  add. In \<open>exOpen\<close> the auction is open for limit orders and starts at 1332000. Buyer 7
  bids at 1000000 for the 10 contracts that \<open>_getTotalContracts\<close> answers: the
  order is in the book, and the auction is as it was, INITIALIZED with nothing sold, which
  is not an outcome of the finalize-check. The same bid at 1332000 finalizes the auction.
\<close>

theorem C6_no_check_before_start:
  "addLimitOrder exIm (buyerEnv 7 1000000) exOpen 0 (2 * 2 ^ 64) 10 = Inr exEarly \<and>
   nodes (orderbooks exEarly 0) = [\<lparr>id' = 1, price64x64 = 2 * 2 ^ 64, size' = 10, buyer = 7\<rparr>] \<and>
   getTotalContracts exIm (buyerEnv 7 1000000) (auctions exOpen 0) = Inr 10 \<and>
   auctions exEarly 0 = auctions exOpen 0 \<and>
   status (auctions exEarly 0) = INITIALIZED \<and>
   totalContractsSold (auctions exEarly 0) = 0 \<and>
   \<not> check_outcome exIm (buyerEnv 7 1000000) (auctions exOpen 0)
       (nodes (orderbooks exEarly 0)) (auctions exEarly 0) \<and>
   addLimitOrder exIm (buyerEnv 7 1332000) exOpen 0 (2 * 2 ^ 64) 10 = Inr exFilled \<and>
   status (auctions exFilled 0) = FINALIZED \<and>
   totalContractsSold (auctions exFilled 0) = 10"
proof -
  have a: "addLimitOrder exIm (buyerEnv 7 1000000) exOpen 0 (2 * 2 ^ 64) 10 = Inr exEarly"
    by (simp add: exOpen_def exEarly_def eval_defs)
  have g: "getTotalContracts exIm (buyerEnv 7 1000000) (auctions exOpen 0) = Inr 10"
    by (simp add: exOpen_def eval_defs)
  have s: "auctions exEarly 0 = auctions exOpen 0"
    by (simp add: exOpen_def exEarly_def eval_defs)
  have n: "\<not> check_outcome exIm (buyerEnv 7 1000000) (auctions exOpen 0)
       (nodes (orderbooks exEarly 0)) (auctions exEarly 0)"
    unfolding check_outcome_def g by (simp add: exEarly_values)
  have f: "addLimitOrder exIm (buyerEnv 7 1332000) exOpen 0 (2 * 2 ^ 64) 10 = Inr exFilled"
    by (simp add: exOpen_def exFilled_def eval_defs)
  have v: "status (auctions exFilled 0) = FINALIZED" "totalContractsSold (auctions exFilled 0) = 10"
    by (simp_all add: exFilled_def eval_defs)
  show ?thesis using a g s n f v exEarly_values(1,3,5) by blast
qed

text \<open>
  Claim C6, amended. The finalize-check is run after an order add and after a cancel
  only when the time is at or past \<open>startTime\<close>; before, the call leaves the auction as it
  is. \<open>finalizeAuction\<close> cancels an INITIALIZED or FINALIZED auction from 24 hours after
  \<open>endTime\<close>, runs the check on an INITIALIZED auction when the time is past \<open>startTime\<close>,
  and does nothing otherwise. Where the check is run, over the book as the call leaves
  it, its outcome is \<open>check_outcome\<close>: traversing from the head, if the sizes summed
  reach \<open>totalContracts\<close> at an order priced at or above the clearing price, as all before
  it, then \<open>lastPrice\<close> is the price of that order, \<open>totalContractsSold\<close> is
  \<open>totalContracts\<close> and the auction is FINALIZED; if the traversal stops before, at the
  first order priced below the clearing price or at the end of the book, \<open>lastPrice\<close> is
  the price of the last order accepted (0 when none is), \<open>totalContractsSold\<close> is the sum
  of the sizes accepted, and the auction becomes FINALIZED only when the time is past
  \<open>endTime\<close>.
\<close>

theorem C6_finalize_check:
  "(reachable im l \<and> addOrder im env l e p s = Inr l' \<longrightarrow>
      orderbooks l' e = fst (insert' (orderbooks l e) p s (msg_sender env)) \<and>
      (if startTime (auctions l e) \<le> block_timestamp env
       then check_outcome im env (auctions l e) (nodes (orderbooks l' e)) (auctions l' e)
       else auctions l' e = auctions l e)) \<and>
   (reachable im l \<and> cancelLimitOrder im env l e i = Inr l' \<longrightarrow>
      orderbooks l' e = fst (remove (orderbooks l e) i) \<and>
      (if startTime (auctions l e) \<le> block_timestamp env
       then check_outcome im env (auctions l e) (nodes (orderbooks l' e)) (auctions l' e)
       else auctions l' e = auctions l e)) \<and>
   (reachable im l \<and> finalizeAuction im env l e = Inr l' \<longrightarrow>
      orderbooks l' e = orderbooks l e \<and>
      (if endTime (auctions l e) + 86400 \<le> block_timestamp env \<and>
          (status (auctions l e) = INITIALIZED \<or> status (auctions l e) = FINALIZED)
       then auctions l' e = cancel (auctions l e)
       else if startTime (auctions l e) < block_timestamp env \<and>
               status (auctions l e) = INITIALIZED
       then check_outcome im env (auctions l e) (nodes (orderbooks l' e)) (auctions l' e)
       else auctions l' e = auctions l e))"
proof (intro conjI impI)
  assume a: "reachable im l \<and> addOrder im env l e p s = Inr l'"
  then have "reachable im l" by simp
  then have w: "wf_book (orderbooks l e)" by (rule reachable_wf_book)
  from a show "orderbooks l' e = fst (insert' (orderbooks l e) p s (msg_sender env))"
    using addOrder_books [of im env l e p s l'] by simp
  from a w show "if startTime (auctions l e) \<le> block_timestamp env
       then check_outcome im env (auctions l e) (nodes (orderbooks l' e)) (auctions l' e)
       else auctions l' e = auctions l e"
    using addOrder_outcome [OF w, of im env p s l'] by simp
next
  assume a: "reachable im l \<and> cancelLimitOrder im env l e i = Inr l'"
  then have "reachable im l" by simp
  then have w: "wf_book (orderbooks l e)" by (rule reachable_wf_book)
  from a show "orderbooks l' e = fst (remove (orderbooks l e) i)"
    using cancelLimitOrder_books [of im env l e i l'] by simp
  from a w show "if startTime (auctions l e) \<le> block_timestamp env
       then check_outcome im env (auctions l e) (nodes (orderbooks l' e)) (auctions l' e)
       else auctions l' e = auctions l e"
    using cancelLimitOrder_outcome [OF w, of im env i l'] by simp
next
  assume a: "reachable im l \<and> finalizeAuction im env l e = Inr l'"
  then have "reachable im l" by simp
  then have w: "wf_book (orderbooks l e)" by (rule reachable_wf_book)
  from a show "orderbooks l' e = orderbooks l e"
    using finalizeAuction_books [of im env l e l'] by simp
  from a w show "if endTime (auctions l e) + 86400 \<le> block_timestamp env \<and>
          (status (auctions l e) = INITIALIZED \<or> status (auctions l e) = FINALIZED)
       then auctions l' e = cancel (auctions l e)
       else if startTime (auctions l e) < block_timestamp env \<and>
               status (auctions l e) = INITIALIZED
       then check_outcome im env (auctions l e) (nodes (orderbooks l' e)) (auctions l' e)
       else auctions l' e = auctions l e"
    using finalizeAuction_outcome [OF w, of im env l'] by simp
qed
theorem C6_finalize_check_witness:
  "reachable exIm exOne \<and>
   addOrder exIm (buyerEnv 8 1332000) exOne 0 (2 * 2 ^ 64) 7 = Inr exSold \<and>
   check_outcome exIm (buyerEnv 8 1332000) (auctions exOne 0) (nodes (orderbooks exSold 0))
     (auctions exSold 0) \<and>
   status (auctions exSold 0) = FINALIZED \<and>
   lastPrice64x64 (auctions exSold 0) = 2 * 2 ^ 64 \<and>
   totalContractsSold (auctions exSold 0) = 10 \<and>
   cancelLimitOrder exIm (buyerEnv 7 1332000) exOne 0 1 = Inr exCancelled \<and>
   check_outcome exIm (buyerEnv 7 1332000) (auctions exOne 0) (nodes (orderbooks exCancelled 0))
     (auctions exCancelled 0) \<and>
   reachable exIm exOpen \<and>
   finalizeAuction exIm (buyerEnv 9 1339201) exOpen 0 = Inr exTimedOut \<and>
   check_outcome exIm (buyerEnv 9 1339201) (auctions exOpen 0) (nodes (orderbooks exTimedOut 0))
     (auctions exTimedOut 0) \<and>
   status (auctions exTimedOut 0) = FINALIZED"
proof -
  have r1: "reachable exIm exOne" using exOne_run by (rule run_reachable)
  have r0: "reachable exIm exOpen" using exOpen_run by (rule run_reachable)
  have t1: "startTime (auctions exOne 0) = 1332000" "endTime (auctions exOne 0) = 1339200"
    by (simp_all add: exOne_def eval_defs)
  have t0: "startTime (auctions exOpen 0) = 1332000" "endTime (auctions exOpen 0) = 1339200"
    "status (auctions exOpen 0) = INITIALIZED"
    by (simp_all add: exOpen_def eval_defs)
  have a: "addOrder exIm (buyerEnv 8 1332000) exOne 0 (2 * 2 ^ 64) 7 = Inr exSold"
    by (simp add: exOne_def exSold_def eval_defs)
  have c: "cancelLimitOrder exIm (buyerEnv 7 1332000) exOne 0 1 = Inr exCancelled"
    by (simp add: exOne_def exCancelled_def eval_defs)
  have f: "finalizeAuction exIm (buyerEnv 9 1339201) exOpen 0 = Inr exTimedOut"
    by (simp add: exOpen_def exTimedOut_def eval_defs)
  have s8: "startTime (auctions exOne 0) \<le> block_timestamp (buyerEnv 8 1332000)"
    and s7: "startTime (auctions exOne 0) \<le> block_timestamp (buyerEnv 7 1332000)"
    by (simp_all add: t1 buyerEnv_def)
  have late: "\<not> (endTime (auctions exOpen 0) + 86400 \<le> block_timestamp (buyerEnv 9 1339201) \<and>
      (status (auctions exOpen 0) = INITIALIZED \<or> status (auctions exOpen 0) = FINALIZED))"
    and started: "startTime (auctions exOpen 0) < block_timestamp (buyerEnv 9 1339201) \<and>
      status (auctions exOpen 0) = INITIALIZED"
    by (simp_all add: t0 buyerEnv_def)
  note inst = C6_finalize_check [where im = exIm and e = 0]
  from inst [where l = exOne and env = "buyerEnv 8 1332000" and p = "2 * 2 ^ 64" and s = 7
      and l' = exSold, THEN conjunct1] r1 a
  have "if startTime (auctions exOne 0) \<le> block_timestamp (buyerEnv 8 1332000)
        then check_outcome exIm (buyerEnv 8 1332000) (auctions exOne 0)
               (nodes (orderbooks exSold 0)) (auctions exSold 0)
        else auctions exSold 0 = auctions exOne 0"
    by blast
  with s8 have 1: "check_outcome exIm (buyerEnv 8 1332000) (auctions exOne 0)
             (nodes (orderbooks exSold 0)) (auctions exSold 0)"
    by (simp only: if_True)
  from inst [where l = exOne and env = "buyerEnv 7 1332000" and i = 1
      and l' = exCancelled, THEN conjunct2, THEN conjunct1] r1 c
  have "if startTime (auctions exOne 0) \<le> block_timestamp (buyerEnv 7 1332000)
        then check_outcome exIm (buyerEnv 7 1332000) (auctions exOne 0)
               (nodes (orderbooks exCancelled 0)) (auctions exCancelled 0)
        else auctions exCancelled 0 = auctions exOne 0"
    by blast
  with s7 have 2: "check_outcome exIm (buyerEnv 7 1332000) (auctions exOne 0)
             (nodes (orderbooks exCancelled 0)) (auctions exCancelled 0)"
    by (simp only: if_True)
  from inst [where l = exOpen and env = "buyerEnv 9 1339201"
      and l' = exTimedOut, THEN conjunct2, THEN conjunct2] r0 f
  have "if endTime (auctions exOpen 0) + 86400 \<le> block_timestamp (buyerEnv 9 1339201) \<and>
          (status (auctions exOpen 0) = INITIALIZED \<or> status (auctions exOpen 0) = FINALIZED)
        then auctions exTimedOut 0 = cancel (auctions exOpen 0)
        else if startTime (auctions exOpen 0) < block_timestamp (buyerEnv 9 1339201) \<and>
               status (auctions exOpen 0) = INITIALIZED
        then check_outcome exIm (buyerEnv 9 1339201) (auctions exOpen 0)
               (nodes (orderbooks exTimedOut 0)) (auctions exTimedOut 0)
        else auctions exTimedOut 0 = auctions exOpen 0"
    by blast
  with late started have 3: "check_outcome exIm (buyerEnv 9 1339201) (auctions exOpen 0)
             (nodes (orderbooks exTimedOut 0)) (auctions exTimedOut 0)"
    by (simp only: if_True if_False)
  show ?thesis
    using r1 r0 a c f 1 2 3 exSold_values(1,3,4) exTimedOut_values(1) by blast
qed

section \<open>The withdraw distribution: \<open>_calculateDistributions\<close>\<close>

















end
